theory Spec2Isabelle
  imports Complex_Main "HOL-Library.Log_Nat"
begin

section \<open>Numbers\<close>

text \<open>
  A JavaScript number is an IEEE 754 double. The finite ones are modelled as real
  numbers, and every arithmetic result is rounded to the nearest double by \<open>fl\<close>
  (53 significant bits, ties to the even significand, gradual underflow below
  \<open>2^-1022\<close>). \<open>Math.round\<close> is \<^const>\<open>round\<close> (both are \<open>\<lfloor>x + 1/2\<rfloor>\<close>), \<open>Math.floor\<close> is
  \<^const>\<open>floor\<close>, and these two, \<open>Math.min\<close>, \<open>Math.max\<close> and \<open>%\<close> are exact on doubles.
  Results beyond the largest double (which the code turns into an infinity) and the
  sign of zero are not represented.
\<close>

definition round_even :: "real \<Rightarrow> int" where
  "round_even x =
     (let f = \<lfloor>x\<rfloor>; d = x - of_int f
      in if d < 1 / 2 then f else if d > 1 / 2 then f + 1 else if even f then f else f + 1)"

text \<open>The binade of a positive number: \<open>2 ^ ilog2 x \<le> x < 2 ^ (ilog2 x + 1)\<close>.\<close>

definition ilog2 :: "real \<Rightarrow> int" where
  "ilog2 x = (if 1 \<le> x then bitlen \<lfloor>x\<rfloor> - 1 else - bitlen (\<lceil>1 / x\<rceil> - 1))"

definition fl :: "real \<Rightarrow> real" where
  "fl x =
     (if x = 0 then 0
      else (let e = max (ilog2 \<bar>x\<bar>) (- 1022); u = 2 powi (e - 52)
            in sgn x * of_int (round_even (\<bar>x\<bar> / u)) * u))"

text \<open>
  The one division of the engine whose divisor can be zero is the division by
  \<open>resolvedDuration\<close> in \<open>tick\<close>. Its quotient and what is computed from it are values of
  \<open>number\<close>, with the infinities and \<open>NaN\<close>; the operations below are those of JavaScript
  on such values.
\<close>

datatype number = Fin real | PInf | NInf | NaN

text \<open>\<open>x / y\<close> for finite \<open>x\<close> and \<open>y\<close>.\<close>

definition n_div :: "real \<Rightarrow> real \<Rightarrow> number" where
  "n_div x y =
     (if y \<noteq> 0 then Fin (fl (x / y))
      else if 0 < x then PInf else if x < 0 then NInf else NaN)"

fun n_sub :: "number \<Rightarrow> number \<Rightarrow> number" where
  "n_sub (Fin a) (Fin b) = Fin (fl (a - b))"
| "n_sub NaN _ = NaN"
| "n_sub _ NaN = NaN"
| "n_sub PInf PInf = NaN"
| "n_sub NInf NInf = NaN"
| "n_sub PInf _ = PInf"
| "n_sub NInf _ = NInf"
| "n_sub (Fin a) PInf = NInf"
| "n_sub (Fin a) NInf = PInf"

text \<open>\<open>Math.floor(x)\<close>.\<close>

fun n_floor :: "number \<Rightarrow> number" where
  "n_floor (Fin a) = Fin (of_int \<lfloor>a\<rfloor>)"
| "n_floor x = x"

text \<open>The remainder \<open>x % 1.0\<close>: JavaScript truncates the quotient towards zero.\<close>

definition mod1 :: "real \<Rightarrow> real" where
  "mod1 x = (if 0 \<le> x then x - of_int \<lfloor>x\<rfloor> else x - of_int \<lceil>x\<rceil>)"

fun n_rem1 :: "number \<Rightarrow> number" where
  "n_rem1 (Fin a) = Fin (mod1 a)"
| "n_rem1 _ = NaN"

text \<open>\<open>!x\<close>: zero and \<open>NaN\<close> are falsy.\<close>

definition falsy :: "number \<Rightarrow> bool" where
  "falsy x = (x = Fin 0 \<or> x = NaN)"

text \<open>\<open>x >= c\<close> for a finite \<open>c\<close>.\<close>

fun n_ge :: "number \<Rightarrow> real \<Rightarrow> bool" where
  "n_ge (Fin a) c = (a \<ge> c)"
| "n_ge PInf c = True"
| "n_ge _ c = False"

text \<open>\<open>Math.min(x, c)\<close> for a finite \<open>c\<close>.\<close>

fun n_min :: "number \<Rightarrow> real \<Rightarrow> number" where
  "n_min (Fin a) c = Fin (min a c)"
| "n_min PInf c = Fin c"
| "n_min x c = x"

text \<open>\<open>Boolean(x % 2)\<close>: true unless \<open>x\<close> is an even integer, an infinity or \<open>NaN\<close>.\<close>

fun truthy_rem2 :: "number \<Rightarrow> bool" where
  "truthy_rem2 (Fin a) = (a / 2 \<noteq> of_int \<lfloor>a / 2\<rfloor>)"
| "truthy_rem2 _ = False"

section \<open>Values\<close>

subsection \<open>\<open>keyframes/utils/is-none.ts\<close>\<close>

text \<open>The argument type \<open>string | number | null\<close> of \<open>isNone\<close>.\<close>

datatype nullable_value = Null | Number real | String string

text \<open>
  \<open>isZeroValueString\<close> is imported from \<open>motion-utils\<close>; it is a parameter of the model.
\<close>

fun isNone :: "(string \<Rightarrow> bool) \<Rightarrow> nullable_value \<Rightarrow> bool" where
  "isNone isZeroValueString (Number n) = (n = 0)"
| "isNone isZeroValueString (String s) =
     (s = ''none'' \<or> s = ''0'' \<or> isZeroValueString s)"
| "isNone isZeroValueString Null = True"

section \<open>The animation engine, \<open>JSAnimation.ts\<close>\<close>

subsection \<open>Data\<close>

text \<open>
  The animated type \<open>T extends number | string\<close>; \<open>Undefined\<close> is what reading
  \<open>keyframes[i]\<close> beyond the array's length gives.
\<close>

datatype val = Num real | Str string | Undefined

text \<open>\<open>AnimationState\<close>, the sample a generator returns: \<open>{ done, value }\<close>.\<close>

record AnimationState =
  sdone :: bool
  svalue :: val

text \<open>
  \<open>KeyframeGenerator\<close>: the function \<open>next\<close>, given by its samples at the finite times
  (\<open>gnext\<close>) and by its sample at \<open>NaN\<close> (\<open>gnext_NaN\<close>), and the cache slot
  \<open>calculatedDuration\<close> (\<open>None\<close> is \<open>null\<close>). \<open>sample_at\<close> is the call \<open>next(t)\<close>, where \<open>None\<close>
  is the time \<open>NaN\<close>.
\<close>

record KeyframeGenerator =
  gnext :: "real \<Rightarrow> AnimationState"
  gnext_NaN :: AnimationState
  gen_calculatedDuration :: "real option"

definition sample_at :: "KeyframeGenerator \<Rightarrow> real option \<Rightarrow> AnimationState" where
  "sample_at g t = (case t of Some x \<Rightarrow> gnext g x | None \<Rightarrow> gnext_NaN g)"

datatype AnimationPlayState = Idle | Running | Paused | Finished

datatype RepeatType = Loop | Reverse | Mirror

text \<open>
  The generator factories, compared by identity in the source
  (\<open>generatorFactory !== keyframesGenerator\<close>, \<open>type !== inertia\<close>). The option \<open>type\<close> is
  taken after \<open>replaceTransitionType\<close> has replaced a name by its factory.
\<close>

datatype GeneratorFactory = keyframesGenerator | inertia | spring | custom nat

text \<open>
  \<open>ValueAnimationOptions\<close>, the fields the engine reads. \<open>repeat\<close> is a non-negative
  integer and \<open>undefined\<close> behaves as \<open>0\<close> everywhere it is read, likewise \<open>repeatDelay\<close>,
  \<open>delay\<close> and \<open>velocity\<close>. A callback is either present or not; a call of a present
  callback is recorded in the engine's event trace. \<open>motionValue_updatedAt\<close> is
  \<open>motionValue.updatedAt\<close> when a motion value is bound.
\<close>

record ValueAnimationOptions =
  keyframes :: "val list"
  otype :: "GeneratorFactory option"
  repeat :: nat
  repeatDelay :: real
  repeatType :: "RepeatType option"
  velocity :: real
  delay :: real
  autoplay :: bool
  opt_startTime :: "real option"
  finalKeyframe :: "val option"
  has_onPlay :: bool
  has_onUpdate :: bool
  has_onComplete :: bool
  has_onStop :: bool
  has_onCancel :: bool
  motionValue_updatedAt :: "real option"

datatype event =
    OnPlay | OnUpdate val | OnComplete | OnStop | OnCancel
  | NotifyFinished | UpdateFinished
  | DriverStart bool | DriverStop

datatype error = InvariantError string string | TypeError

text \<open>
  What the engine imports from modules that are not part of these sources: the
  build mode (\<open>process.env.NODE_ENV !== "production"\<close>), the generator factories,
  \<open>calcGeneratorDuration\<close>, \<open>mix\<close>, \<open>getFinalKeyframe\<close> and the string conversion of a
  keyframe inside a template literal. They are parameters of the model.
\<close>

record env =
  development :: bool
  factory :: "GeneratorFactory \<Rightarrow> ValueAnimationOptions \<Rightarrow> KeyframeGenerator"
  calcGeneratorDuration :: "KeyframeGenerator \<Rightarrow> real"
  mix :: "val \<Rightarrow> val \<Rightarrow> real option \<Rightarrow> val"
  getFinalKeyframe :: "val list \<Rightarrow> ValueAnimationOptions \<Rightarrow> val option \<Rightarrow> real \<Rightarrow> val"
  toString :: "val \<Rightarrow> string"

text \<open>
  The fields of a \<open>JSAnimation\<close>. \<open>driver\<close> tells whether a driver object is held;
  \<open>mainThread\<close> is the process-wide counter \<open>activeAnimations.mainThread\<close>; \<open>events\<close> is
  the trace of callback, promise and driver calls, oldest first.
\<close>

record JSAnimation =
  state :: AnimationPlayState
  startTime :: "real option"
  driver :: bool
  isStopped :: bool
  generator :: KeyframeGenerator
  calculatedDuration :: "real option"
  resolvedDuration :: real
  totalDuration :: real
  options :: ValueAnimationOptions
  currentTime :: real
  holdTime :: "real option"
  playbackSpeed :: real
  mixKeyframes :: "(val \<Rightarrow> val) option"
  mirroredGenerator :: "KeyframeGenerator option"
  mainThread :: int
  events :: "event list"

subsection \<open>Helpers from \<open>motion-utils\<close>\<close>

text \<open>
  Modelled from the spec: \<open>secondsToMilliseconds\<close> and \<open>millisecondsToSeconds\<close> of
  \<open>motion-utils\<close> ("converts seconds to ms").
\<close>

definition secondsToMilliseconds :: "real \<Rightarrow> real" where
  "secondsToMilliseconds seconds = fl (seconds * 1000)"

definition millisecondsToSeconds :: "real \<Rightarrow> real" where
  "millisecondsToSeconds milliseconds = fl (milliseconds / 1000)"

text \<open>
  Modelled from the spec: \<open>clamp(min, max, v)\<close> of \<open>motion-utils\<close> (\<open>clamp01\<close> in the
  spec's words when called with \<open>0\<close> and \<open>1\<close>), \<open>v > max ? max : v < min ? min : v\<close>. The
  result is finite or \<open>NaN\<close> (\<open>None\<close>): every comparison with \<open>NaN\<close> is false.
\<close>

fun clamp :: "real \<Rightarrow> real \<Rightarrow> number \<Rightarrow> real option" where
  "clamp lo hi (Fin v) = Some (if v > hi then hi else if v < lo then lo else v)"
| "clamp lo hi PInf = Some hi"
| "clamp lo hi NInf = Some lo"
| "clamp lo hi NaN = None"

text \<open>
  Modelled from the spec: \<open>invariant(check, message, errorCode)\<close> of \<open>motion-utils\<close>, the
  development-time assertion: it throws an error carrying the message when the check
  is false.
\<close>

definition invariant :: "bool \<Rightarrow> string \<Rightarrow> string \<Rightarrow> error + unit" where
  "invariant check message errorCode =
     (if check then Inr () else Inl (InvariantError message errorCode))"

text \<open>\<open>array[i]\<close>, which is \<open>undefined\<close> out of range.\<close>

definition at_index :: "val list \<Rightarrow> nat \<Rightarrow> val" where
  "at_index xs i = (if i < length xs then xs ! i else Undefined)"

text \<open>\<open>`${keyframes}`\<close>: the elements' strings joined by commas.\<close>

fun joined :: "(val \<Rightarrow> string) \<Rightarrow> val list \<Rightarrow> string" where
  "joined str [] = []"
| "joined str [x] = str x"
| "joined str (x # y # ys) = str x @ '','' @ joined str (y # ys)"

definition percentToProgress :: "val \<Rightarrow> real option" where
  "percentToProgress percent = (case percent of Num p \<Rightarrow> Some (fl (p / 100)) | _ \<Rightarrow> None)"

subsection \<open>\<open>initAnimation\<close> and the constructor\<close>

definition is_number :: "val \<Rightarrow> bool" where
  "is_number v = (case v of Num _ \<Rightarrow> True | _ \<Rightarrow> False)"

definition two_frames_message :: "env \<Rightarrow> val list \<Rightarrow> string" where
  "two_frames_message env ks =
     ''Only two keyframes currently supported with spring and inertia animations. Trying to animate ''
     @ joined (toString env) ks"

definition initAnimation :: "env \<Rightarrow> JSAnimation \<Rightarrow> error + JSAnimation" where
  "initAnimation env this =
     (let opts = options this;
          ks = keyframes opts;
          generatorFactory = (case otype opts of None \<Rightarrow> keyframesGenerator | Some t \<Rightarrow> t)
      in case (if development env \<and> generatorFactory \<noteq> keyframesGenerator
               then invariant (length ks \<le> 2) (two_frames_message env ks) ''spring-two-frames''
               else Inr ()) of
           Inl err \<Rightarrow> Inl err
         | Inr _ \<Rightarrow>
            (let mixed = (generatorFactory \<noteq> keyframesGenerator \<and> \<not> is_number (at_index ks 0));
                 this1 = (if mixed
                          then this\<lparr>mixKeyframes :=
                                 Some (\<lambda>p. mix env (at_index ks 0) (at_index ks 1) (percentToProgress p))\<rparr>
                          else this);
                 ks1 = (if mixed then [Num 0, Num 100] else ks);
                 gen = factory env generatorFactory (opts\<lparr>keyframes := ks1\<rparr>);
                 this2 = (if repeatType opts = Some Mirror
                          then this1\<lparr>mirroredGenerator :=
                                 Some (factory env generatorFactory
                                         (opts\<lparr>keyframes := rev ks1, velocity := - velocity opts\<rparr>))\<rparr>
                          else this1);
                 cd = (case gen_calculatedDuration gen of
                         None \<Rightarrow> calcGeneratorDuration env gen
                       | Some d \<Rightarrow> d);
                 rd = fl (cd + repeatDelay opts)
             in Inr (this2\<lparr>calculatedDuration := Some cd,
                           resolvedDuration := rd,
                           totalDuration :=
                             fl (fl (rd * (real (repeat opts) + 1)) - repeatDelay opts),
                           generator := gen\<lparr>gen_calculatedDuration := Some cd\<rparr>\<rparr>)))"

subsection \<open>Time and teardown\<close>

text \<open>
  \<open>updateTime\<close>. \<open>this.startTime!\<close> is read without a check: \<open>null\<close> counts as \<open>0\<close> in
  the subtraction.
\<close>

definition updateTime :: "JSAnimation \<Rightarrow> real \<Rightarrow> JSAnimation" where
  "updateTime this timestamp =
     (let animationTime =
            fl (of_int (round (fl (timestamp
                                     - (case startTime this of None \<Rightarrow> 0 | Some s \<Rightarrow> s))))
                  * playbackSpeed this)
      in case holdTime this of
           Some h \<Rightarrow> this\<lparr>currentTime := h\<rparr>
         | None \<Rightarrow> this\<lparr>currentTime := animationTime\<rparr>)"

definition emit :: "event \<Rightarrow> JSAnimation \<Rightarrow> JSAnimation" where
  "emit ev this = this\<lparr>events := events this @ [ev]\<rparr>"

definition stopDriver :: "JSAnimation \<Rightarrow> JSAnimation" where
  "stopDriver this =
     (if \<not> driver this then this else (emit DriverStop this)\<lparr>driver := False\<rparr>)"

definition teardown :: "JSAnimation \<Rightarrow> JSAnimation" where
  "teardown this =
     (let this1 = stopDriver (this\<lparr>state := Idle\<rparr>)
      in this1\<lparr>startTime := None, holdTime := None, mainThread := mainThread this1 - 1\<rparr>)"

definition finish :: "JSAnimation \<Rightarrow> JSAnimation" where
  "finish this =
     (let this1 = (teardown (emit NotifyFinished this))\<lparr>state := Finished\<rparr>
      in if has_onComplete (options this1) then emit OnComplete this1 else this1)"

subsection \<open>\<open>tick\<close>\<close>

text \<open>
  The first part of \<open>tick\<close> once \<open>startTime\<close> is known to be \<open>st\<close>, in three steps.
  First the clamp of \<open>startTime\<close> against the timestamp.
\<close>

definition clamp_startTime :: "JSAnimation \<Rightarrow> real \<Rightarrow> real \<Rightarrow> JSAnimation" where
  "clamp_startTime this st timestamp =
     (if playbackSpeed this > 0 then this\<lparr>startTime := Some (min st timestamp)\<rparr>
      else if playbackSpeed this < 0
      then this\<lparr>startTime :=
             Some (min (fl (timestamp - fl (totalDuration this / playbackSpeed this))) st)\<rparr>
      else this)"

text \<open>
  Then, after \<open>currentTime\<close> has been set, the rebase on the delay and the override for
  a finished animation; the result is the engine and \<open>isInDelayPhase\<close>.
\<close>

definition rebase_on_delay :: "JSAnimation \<Rightarrow> JSAnimation \<times> bool" where
  "rebase_on_delay this =
     (let timeWithoutDelay =
            fl (currentTime this
                  - delay (options this) * (if playbackSpeed this \<ge> 0 then 1 else - 1));
          isInDelayPhase =
            (if playbackSpeed this \<ge> 0 then timeWithoutDelay < 0
             else timeWithoutDelay > totalDuration this);
          this1 = this\<lparr>currentTime := max timeWithoutDelay 0\<rparr>
      in (if state this1 = Finished \<and> holdTime this1 = None
          then this1\<lparr>currentTime := totalDuration this\<rparr>
          else this1,
          isInDelayPhase))"

definition tick_time :: "JSAnimation \<Rightarrow> real \<Rightarrow> real \<Rightarrow> bool \<Rightarrow> JSAnimation \<times> bool" where
  "tick_time this st timestamp sample =
     (let this1 = clamp_startTime this st timestamp;
          this2 = (if sample then this1\<lparr>currentTime := timestamp\<rparr>
                   else updateTime this1 timestamp)
      in rebase_on_delay this2)"

text \<open>
  The block \<open>if (repeat) { ... }\<close> of \<open>tick\<close>: it returns \<open>elapsed\<close> (\<open>None\<close> is \<open>NaN\<close>) and
  \<open>frameGenerator\<close>, which is \<open>None\<close> when \<open>mirroredGenerator!\<close> is read while the field is
  \<open>undefined\<close>.
\<close>

definition tick_repeat :: "JSAnimation \<Rightarrow> real option \<times> KeyframeGenerator option" where
  "tick_repeat this =
     (if repeat (options this) \<noteq> 0 then
        (let progress =
               n_div (min (currentTime this) (totalDuration this)) (resolvedDuration this);
             currentIteration0 = n_floor progress;
             iterationProgress0 = n_rem1 progress;
             iterationProgress1 =
               (if falsy iterationProgress0 \<and> n_ge progress 1 then Fin 1
                else iterationProgress0);
             currentIteration1 =
               (if iterationProgress1 = Fin 1 then n_sub currentIteration0 (Fin 1)
                else currentIteration0);
             currentIteration = n_min currentIteration1 (real (repeat (options this)) + 1);
             isOddIteration = truthy_rem2 currentIteration;
             iterationProgress =
               (if isOddIteration \<and> repeatType (options this) = Some Reverse
                then (if repeatDelay (options this) \<noteq> 0
                      then n_sub (n_sub (Fin 1) iterationProgress1)
                             (n_div (repeatDelay (options this)) (resolvedDuration this))
                      else n_sub (Fin 1) iterationProgress1)
                else iterationProgress1);
             frameGenerator =
               (if isOddIteration \<and> repeatType (options this) = Some Mirror
                then mirroredGenerator this
                else Some (generator this))
         in (map_option (\<lambda>c. fl (c * resolvedDuration this)) (clamp 0 1 iterationProgress),
             frameGenerator))
      else (Some (currentTime this), Some (generator this)))"

text \<open>
  The local variable \<open>done\<close> of \<open>tick\<close> after its recomputation: \<open>sampled\<close> is the flag
  of the sample, \<open>this\<close> the engine as \<open>tick_time\<close> returned it.
\<close>

definition tick_done :: "JSAnimation \<Rightarrow> bool \<Rightarrow> bool \<Rightarrow> bool" where
  "tick_done this isInDelayPhase sampled =
     (if \<not> isInDelayPhase \<and> calculatedDuration this \<noteq> None
      then (if playbackSpeed this \<ge> 0 then currentTime this \<ge> totalDuration this
            else currentTime this \<le> 0)
      else sampled)"

definition isAnimationFinished :: "JSAnimation \<Rightarrow> bool \<Rightarrow> bool" where
  "isAnimationFinished this done' =
     (holdTime this = None \<and> (state this = Finished \<or> (state this = Running \<and> done')))"

text \<open>
  The last part of \<open>tick\<close>, from the sample \<open>state0\<close> on: the mixer, the recomputation
  of \<open>done\<close>, the final keyframe, \<open>onUpdate\<close> and \<open>finish\<close>. \<open>this\<close> is the engine as
  \<open>tick_time\<close> returned it.
\<close>

definition tick_settle ::
  "env \<Rightarrow> JSAnimation \<Rightarrow> bool \<Rightarrow> AnimationState \<Rightarrow> JSAnimation \<times> AnimationState" where
  "tick_settle env this isInDelayPhase state0 =
     (let state1 = (case mixKeyframes this of
                      None \<Rightarrow> state0
                    | Some m \<Rightarrow> state0\<lparr>svalue := m (svalue state0)\<rparr>);
          done' = tick_done this isInDelayPhase (sdone state1);
          finished = isAnimationFinished this done';
          state2 = (if finished \<and> otype (options this) \<noteq> Some inertia
                    then state1\<lparr>svalue :=
                           getFinalKeyframe env (keyframes (options this)) (options this)
                             (finalKeyframe (options this)) (playbackSpeed this)\<rparr>
                    else state1);
          this1 = (if has_onUpdate (options this)
                   then emit (OnUpdate (svalue state2)) this else this)
      in (if finished then finish this1 else this1, state2))"

text \<open>
  \<open>tick(timestamp, sample)\<close>. The result is the engine after the call and the returned
  sample; \<open>Inl TypeError\<close> is the call of \<open>next\<close> on an undefined mirrored generator.
\<close>

definition tick ::
  "env \<Rightarrow> JSAnimation \<Rightarrow> real \<Rightarrow> bool \<Rightarrow> error + (JSAnimation \<times> AnimationState)" where
  "tick env this timestamp sample =
     (case startTime this of
        None \<Rightarrow> Inr (this, gnext (generator this) 0)
      | Some st \<Rightarrow>
         (let (this1, isInDelayPhase) = tick_time this st timestamp sample;
              (elapsed, frameGenerator) = tick_repeat this1
          in case (if isInDelayPhase
                   then Inr \<lparr>sdone = False, svalue = at_index (keyframes (options this)) 0\<rparr>
                   else (case frameGenerator of
                           None \<Rightarrow> Inl TypeError
                         | Some g \<Rightarrow> Inr (sample_at g elapsed))) of
               Inl err \<Rightarrow> Inl err
             | Inr state0 \<Rightarrow> Inr (tick_settle env this1 isInDelayPhase state0)))"

subsection \<open>Playback controls\<close>

text \<open>
  The clocks are arguments: \<open>now\<close> is what \<open>this.driver.now()\<close> returns during the call,
  \<open>timeNow\<close> what \<open>time.now()\<close> of the frame loop returns.
\<close>

definition get_time :: "JSAnimation \<Rightarrow> real" where
  "get_time this = millisecondsToSeconds (currentTime this)"

definition set_time :: "JSAnimation \<Rightarrow> real \<Rightarrow> real \<Rightarrow> JSAnimation" where
  "set_time this now newTime0 =
     (let newTime = secondsToMilliseconds newTime0;
          this1 = this\<lparr>currentTime := newTime\<rparr>;
          this2 =
            (if startTime this1 = None \<or> holdTime this1 \<noteq> None \<or> playbackSpeed this1 = 0
             then this1\<lparr>holdTime := Some newTime\<rparr>
             else if driver this1
             then this1\<lparr>startTime := Some (fl (now - fl (newTime / playbackSpeed this1)))\<rparr>
             else this1)
      in if driver this2 then emit (DriverStart False) this2 else this2)"

definition get_speed :: "JSAnimation \<Rightarrow> real" where
  "get_speed this = playbackSpeed this"

definition set_speed :: "JSAnimation \<Rightarrow> real \<Rightarrow> real \<Rightarrow> real \<Rightarrow> JSAnimation" where
  "set_speed this timeNow now newSpeed =
     (let this1 = updateTime this timeNow;
          hasChanged = (playbackSpeed this1 \<noteq> newSpeed);
          this2 = this1\<lparr>playbackSpeed := newSpeed\<rparr>
      in if hasChanged then set_time this2 now (millisecondsToSeconds (currentTime this2))
         else this2)"

definition play :: "JSAnimation \<Rightarrow> real \<Rightarrow> JSAnimation" where
  "play this now =
     (if isStopped this then this
      else
        (let this1 = (if \<not> driver this then this\<lparr>driver := True\<rparr> else this);
             this2 = (if has_onPlay (options this1) then emit OnPlay this1 else this1);
             this3 =
               (if state this2 = Finished
                then (emit UpdateFinished this2)\<lparr>startTime := Some now\<rparr>
                else (case holdTime this2 of
                        Some h \<Rightarrow> this2\<lparr>startTime := Some (fl (now - h))\<rparr>
                      | None \<Rightarrow>
                         (if startTime this2 = None \<or> startTime this2 = Some 0
                          then this2\<lparr>startTime :=
                                 Some (case opt_startTime (options this2) of
                                         Some s \<Rightarrow> s | None \<Rightarrow> now)\<rparr>
                          else this2)));
             this4 =
               (if state this3 = Finished \<and> playbackSpeed this3 < 0
                then this3\<lparr>startTime :=
                       Some (fl ((case startTime this3 of None \<Rightarrow> 0 | Some s \<Rightarrow> s)
                                 + (case calculatedDuration this3 of None \<Rightarrow> 0 | Some d \<Rightarrow> d)))\<rparr>
                else this3)
         in emit (DriverStart True) (this4\<lparr>holdTime := None, state := Running\<rparr>)))"

definition pause :: "JSAnimation \<Rightarrow> real \<Rightarrow> JSAnimation" where
  "pause this timeNow =
     (let this1 = updateTime (this\<lparr>state := Paused\<rparr>) timeNow
      in this1\<lparr>holdTime := Some (currentTime this1)\<rparr>)"

definition stop :: "env \<Rightarrow> JSAnimation \<Rightarrow> real \<Rightarrow> error + JSAnimation" where
  "stop env this timeNow =
     (case (case motionValue_updatedAt (options this) of
              None \<Rightarrow> Inr this
            | Some updatedAt \<Rightarrow>
               (if updatedAt \<noteq> timeNow
                then (case tick env this timeNow False of
                        Inl err \<Rightarrow> Inl err
                      | Inr (this', _) \<Rightarrow> Inr this')
                else Inr this)) of
        Inl err \<Rightarrow> Inl err
      | Inr this1 \<Rightarrow>
         (let this2 = this1\<lparr>isStopped := True\<rparr>
          in if state this2 = Idle then Inr this2
             else (let this3 = teardown this2
                   in Inr (if has_onStop (options this3) then emit OnStop this3 else this3))))"

definition complete :: "JSAnimation \<Rightarrow> real \<Rightarrow> JSAnimation" where
  "complete this now =
     (let this1 = (if state this \<noteq> Running then play this now else this)
      in this1\<lparr>state := Finished, holdTime := None\<rparr>)"

definition cancel :: "env \<Rightarrow> JSAnimation \<Rightarrow> error + JSAnimation" where
  "cancel env this =
     (case tick env (this\<lparr>holdTime := None, startTime := Some 0\<rparr>) 0 False of
        Inl err \<Rightarrow> Inl err
      | Inr (this1, _) \<Rightarrow>
         (let this2 = teardown this1
          in Inr (if has_onCancel (options this2) then emit OnCancel this2 else this2)))"

definition sample :: "env \<Rightarrow> JSAnimation \<Rightarrow> real \<Rightarrow> error + (JSAnimation \<times> AnimationState)" where
  "sample env this sampleTime = tick env (this\<lparr>startTime := Some 0\<rparr>) sampleTime True"

text \<open>
  The fields as the class declares them, before \<open>initAnimation\<close> has run; \<open>generator\<close> and
  the three durations are declared without an initialiser and are assigned by
  \<open>initAnimation\<close> before anything reads them. \<open>count\<close> is the value of the process-wide
  counter when the constructor is entered.
\<close>

definition declared :: "ValueAnimationOptions \<Rightarrow> int \<Rightarrow> JSAnimation" where
  "declared opts count =
     \<lparr>state = Idle, startTime = None, driver = False, isStopped = False,
      generator = \<lparr>gnext = (\<lambda>t. \<lparr>sdone = True, svalue = Undefined\<rparr>),
                   gnext_NaN = \<lparr>sdone = True, svalue = Undefined\<rparr>,
                   gen_calculatedDuration = None\<rparr>,
      calculatedDuration = None, resolvedDuration = 0, totalDuration = 0,
      options = opts, currentTime = 0, holdTime = None, playbackSpeed = 1,
      mixKeyframes = None, mirroredGenerator = None,
      mainThread = count + 1, events = []\<rparr>"

definition constructor ::
  "env \<Rightarrow> ValueAnimationOptions \<Rightarrow> int \<Rightarrow> real \<Rightarrow> real \<Rightarrow> error + JSAnimation" where
  "constructor env opts count now timeNow =
     (case initAnimation env (declared opts count) of
        Inl err \<Rightarrow> Inl err
      | Inr this \<Rightarrow>
         (let this1 = play this now
          in Inr (if \<not> autoplay opts then pause this1 timeNow else this1)))"

subsection \<open>Sequences of calls\<close>

text \<open>
  A call of one of the engine's methods by the driver or by user code, with the clock
  readings the call sees, and the run of a sequence of calls on one engine. A thrown
  error ends the run.
\<close>

datatype method_call =
    Tick real
  | Play real
  | Pause real
  | Stop real
  | Complete real
  | Cancel
  | SetTime real real
  | SetSpeed real real real

fun call :: "env \<Rightarrow> JSAnimation \<Rightarrow> method_call \<Rightarrow> error + JSAnimation" where
  "call env this (Tick timestamp) =
     (case tick env this timestamp False of Inl err \<Rightarrow> Inl err | Inr (this', _) \<Rightarrow> Inr this')"
| "call env this (Play now) = Inr (play this now)"
| "call env this (Pause timeNow) = Inr (pause this timeNow)"
| "call env this (Stop timeNow) = stop env this timeNow"
| "call env this (Complete now) = Inr (complete this now)"
| "call env this Cancel = cancel env this"
| "call env this (SetTime now newTime) = Inr (set_time this now newTime)"
| "call env this (SetSpeed timeNow now newSpeed) = Inr (set_speed this timeNow now newSpeed)"

fun calls :: "env \<Rightarrow> JSAnimation \<Rightarrow> method_call list \<Rightarrow> error + JSAnimation" where
  "calls env this [] = Inr this"
| "calls env this (c # cs) =
     (case call env this c of Inl err \<Rightarrow> Inl err | Inr this' \<Rightarrow> calls env this' cs)"

subsection \<open>The repeat arithmetic in the specification's words\<close>

text \<open>
  The specification's description of the repeat block, written from its sentences and
  independent of \<open>tick_repeat\<close>: \<open>progress = min(currentTime, totalDuration) /
  resolvedDuration\<close>, \<open>iteration = floor(progress)\<close>, \<open>iterationProgress = progress mod 1\<close>,
  promoted to exactly \<open>1\<close> when progress is a whole number \<open>\<ge> 1\<close> (the iteration is then
  decremented), the iteration clamped to \<open>\<le> repeat + 1\<close>, odd iterations flipped for
  \<open>reverse\<close> (less the repeat-delay fraction when there is a repeat delay) or played by
  the mirrored generator for \<open>mirror\<close>. The operations are those of the code's numbers:
  \<open>mod\<close> is the remainder \<open>%\<close>, and an infinite progress has no fractional part.
\<close>

definition spec_progress :: "JSAnimation \<Rightarrow> number" where
  "spec_progress this =
     n_div (min (currentTime this) (totalDuration this)) (resolvedDuration this)"

definition fractional :: "number \<Rightarrow> bool" where
  "fractional p = (case p of Fin a \<Rightarrow> a \<noteq> of_int \<lfloor>a\<rfloor> | _ \<Rightarrow> False)"

definition spec_whole :: "number \<Rightarrow> bool" where
  "spec_whole p = (n_ge p 1 \<and> \<not> fractional p)"

definition spec_iterationProgress :: "number \<Rightarrow> number" where
  "spec_iterationProgress p = (if spec_whole p then Fin 1 else n_rem1 p)"

definition spec_iteration :: "number \<Rightarrow> nat \<Rightarrow> number" where
  "spec_iteration p r =
     n_min (if spec_whole p then n_sub (n_floor p) (Fin 1) else n_floor p) (real r + 1)"

definition spec_odd :: "JSAnimation \<Rightarrow> bool" where
  "spec_odd this = truthy_rem2 (spec_iteration (spec_progress this) (repeat (options this)))"

definition spec_elapsed :: "JSAnimation \<Rightarrow> real option" where
  "spec_elapsed this =
     (let ip = spec_iterationProgress (spec_progress this);
          flipped =
            (if spec_odd this \<and> repeatType (options this) = Some Reverse
             then (if repeatDelay (options this) \<noteq> 0
                   then n_sub (n_sub (Fin 1) ip)
                          (n_div (repeatDelay (options this)) (resolvedDuration this))
                   else n_sub (Fin 1) ip)
             else ip)
      in map_option (\<lambda>c. fl (c * resolvedDuration this)) (clamp 0 1 flipped))"

definition spec_generator :: "JSAnimation \<Rightarrow> KeyframeGenerator option" where
  "spec_generator this =
     (if spec_odd this \<and> repeatType (options this) = Some Mirror
      then mirroredGenerator this else Some (generator this))"

subsection \<open>Completion by time, in the specification's words\<close>

text \<open>
  The time-boundary comparison of the specification: \<open>currentTime \<ge> totalDuration\<close> for
  forward playback, \<open>currentTime \<le> 0\<close> for reverse playback.
\<close>

definition done_by_time :: "JSAnimation \<Rightarrow> bool" where
  "done_by_time this =
     (if playbackSpeed this \<ge> 0 then currentTime this \<ge> totalDuration this
      else currentTime this \<le> 0)"

text \<open>The value a tick reports: the sampled value, through the mixer when there is one.\<close>

definition mixed :: "JSAnimation \<Rightarrow> val \<Rightarrow> val" where
  "mixed this v = (case mixKeyframes this of None \<Rightarrow> v | Some m \<Rightarrow> m v)"

subsection \<open>An example environment\<close>

text \<open>
  A two-point linear generator of duration \<open>d\<close> over numeric keyframes, used for the
  closed instances of the theorems below.
\<close>

definition num_of :: "val \<Rightarrow> real" where
  "num_of v = (case v of Num r \<Rightarrow> r | _ \<Rightarrow> 0)"

definition linear :: "real \<Rightarrow> val list \<Rightarrow> KeyframeGenerator" where
  "linear d ks =
     \<lparr>gnext = (\<lambda>t. \<lparr>sdone = (t \<ge> d),
                      svalue = Num (num_of (at_index ks 0)
                                    + (num_of (at_index ks 1) - num_of (at_index ks 0))
                                        * (if d = 0 then 1 else max 0 (min 1 (t / d))))\<rparr>),
      gnext_NaN = \<lparr>sdone = False, svalue = Undefined\<rparr>,
      gen_calculatedDuration = Some d\<rparr>"

text \<open>
  Modelled from the spec: \<open>getFinalKeyframe\<close> (\<open>keyframes/get-final\<close>, of which only the
  test is among the sources): the first keyframe when the speed is negative or when
  an odd repeat count meets repeat type \<open>reverse\<close> or \<open>mirror\<close>, otherwise the explicit
  final keyframe when one is given and the last keyframe when not.
\<close>

definition getFinalKeyframe_spec ::
  "val list \<Rightarrow> ValueAnimationOptions \<Rightarrow> val option \<Rightarrow> real \<Rightarrow> val" where
  "getFinalKeyframe_spec ks opts final speed =
     (if speed < 0
         \<or> (repeat opts \<noteq> 0 \<and> repeatType opts \<noteq> None \<and> repeatType opts \<noteq> Some Loop
             \<and> odd (repeat opts))
      then at_index ks 0
      else (case final of Some v \<Rightarrow> v | None \<Rightarrow> at_index ks (length ks - 1)))"

definition example_env :: "real \<Rightarrow> env" where
  "example_env d =
     \<lparr>development = True,
      factory = (\<lambda>f opts. linear d (keyframes opts)),
      calcGeneratorDuration = (\<lambda>g. d),
      mix = (\<lambda>a b p. (case p of None \<Rightarrow> Undefined | Some q \<Rightarrow> if q < 1 then a else b)),
      getFinalKeyframe = getFinalKeyframe_spec,
      toString = (\<lambda>v. (case v of Str s \<Rightarrow> s | _ \<Rightarrow> ''n''))\<rparr>"

definition example_options :: ValueAnimationOptions where
  "example_options =
     \<lparr>keyframes = [Num 0, Num 1], otype = None, repeat = 0, repeatDelay = 0,
      repeatType = None, velocity = 0, delay = 0, autoplay = True,
      opt_startTime = None, finalKeyframe = None,
      has_onPlay = False, has_onUpdate = True, has_onComplete = False,
      has_onStop = False, has_onCancel = True, motionValue_updatedAt = None\<rparr>"

text \<open>
  The engine that \<open>new JSAnimation(opts)\<close> returns in the example environment when both
  clocks read \<open>0\<close>, for options without a generator type, an explicit start time or an
  \<open>onPlay\<close> callback (see \<open>constructor_example\<close> below).
\<close>

definition example_engine :: "ValueAnimationOptions \<Rightarrow> real \<Rightarrow> int \<Rightarrow> JSAnimation" where
  "example_engine opts d count =
     \<lparr>state = Running, startTime = Some 0, driver = True, isStopped = False,
      generator = linear d (keyframes opts),
      calculatedDuration = Some d,
      resolvedDuration = fl (d + repeatDelay opts),
      totalDuration =
        fl (fl (fl (d + repeatDelay opts) * (real (repeat opts) + 1)) - repeatDelay opts),
      options = opts, currentTime = 0, holdTime = None, playbackSpeed = 1,
      mixKeyframes = None,
      mirroredGenerator =
        (if repeatType opts = Some Mirror then Some (linear d (rev (keyframes opts))) else None),
      mainThread = count + 1, events = [DriverStart True]\<rparr>"

definition example_repeat_options :: ValueAnimationOptions where
  "example_repeat_options =
     example_options\<lparr>repeat := 2, repeatDelay := 100, repeatType := Some Reverse\<rparr>"

definition example_loop_options :: ValueAnimationOptions where
  "example_loop_options = example_options\<lparr>repeat := 1\<rparr>"

definition example_delay_options :: ValueAnimationOptions where
  "example_delay_options = example_options\<lparr>repeat := 1, repeatDelay := 100, delay := 500\<rparr>"

definition example_spring_options :: ValueAnimationOptions where
  "example_spring_options =
     example_options\<lparr>otype := Some spring, keyframes := [Str ''a'', Str ''b'', Str ''c'']\<rparr>"

text \<open>
  A repeat delay that is a double but not a whole number: the double nearest to
  \<open>100.1\<close>.
\<close>

definition example_rounding_options :: ValueAnimationOptions where
  "example_rounding_options =
     example_options\<lparr>repeatDelay := 3521955646092083 / 35184372088832\<rparr>"

text \<open>A time in seconds that is a double: the double nearest to \<open>0.031000001\<close>.\<close>

definition example_seconds :: real where
  "example_seconds = 139611592952085 / 4503599627370496"

text \<open>The engines of these options, with a generator of \<open>1000\<close> ms.\<close>

definition example_reversing :: JSAnimation where
  "example_reversing = example_engine example_repeat_options 1000 0"

definition example_looping :: JSAnimation where
  "example_looping = example_engine example_loop_options 1000 0"

text \<open>The example engine, paused when the clock reads \<open>100\<close>.\<close>

definition example_paused :: JSAnimation where
  "example_paused = pause (example_engine example_options 1000 0) 100"

section \<open>Properties\<close>

subsection \<open>Rounding to a double\<close>

text \<open>The binade of a positive number, and the integer nearest to a number.\<close>

lemma bitlen_powi:
  assumes "0 < n"
  shows "2 powi (bitlen n - 1) \<le> real_of_int n" "real_of_int n < 2 powi (bitlen n)"
proof -
  have b: "1 \<le> bitlen n" using assms by (auto simp: bitlen_alt_def)
  have "(2::int) ^ nat (bitlen n - 1) \<le> n" "n < 2 ^ nat (bitlen n)"
    using bitlen_bounds [OF assms] by auto
  then have "real_of_int (2 ^ nat (bitlen n - 1)) \<le> real_of_int n"
    "real_of_int n < real_of_int (2 ^ nat (bitlen n))"
    by linarith+
  then show "2 powi (bitlen n - 1) \<le> real_of_int n" "real_of_int n < 2 powi (bitlen n)"
    using b by (simp_all add: power_int_def)
qed

lemma ilog2_bounds:
  assumes "0 < x"
  shows "2 powi (ilog2 x) \<le> x" "x < 2 powi (ilog2 x + 1)"
proof -
  show "2 powi (ilog2 x) \<le> x"
  proof (cases "1 \<le> x")
    case True
    then have n: "0 < \<lfloor>x\<rfloor>" by linarith
    have "2 powi (bitlen \<lfloor>x\<rfloor> - 1) \<le> real_of_int \<lfloor>x\<rfloor>" using bitlen_powi(1) [OF n] .
    also have "\<dots> \<le> x" by linarith
    finally show ?thesis using True by (simp add: ilog2_def)
  next
    case False
    define y where "y = 1 / x"
    have y: "1 < y" using False assms by (simp add: y_def)
    define m where "m = \<lceil>y\<rceil> - 1"
    have m: "0 < m" using y unfolding m_def by linarith
    have "y \<le> real_of_int m + 1" by (simp add: m_def)
    moreover have "real_of_int m + 1 \<le> 2 powi (bitlen m)"
    proof -
      have "m < 2 ^ nat (bitlen m)" using bitlen_bounds [OF m] by auto
      then have "m + 1 \<le> 2 ^ nat (bitlen m)" by linarith
      then have "real_of_int (m + 1) \<le> real_of_int (2 ^ nat (bitlen m))" by linarith
      then show ?thesis using bitlen_nonneg [of m] by (simp add: power_int_def)
    qed
    ultimately have "1 / x \<le> 2 powi (bitlen m)" by (simp add: y_def)
    then have "1 / 2 powi (bitlen m) \<le> x"
      using assms by (simp add: field_simps)
    then show ?thesis
      using False by (simp add: ilog2_def m_def y_def power_int_minus_divide)
  qed
  show "x < 2 powi (ilog2 x + 1)"
  proof (cases "1 \<le> x")
    case True
    then have n: "0 < \<lfloor>x\<rfloor>" by linarith
    have "real_of_int \<lfloor>x\<rfloor> < 2 powi (bitlen \<lfloor>x\<rfloor>)" using bitlen_powi(2) [OF n] .
    then have "\<lfloor>x\<rfloor> < 2 ^ nat (bitlen \<lfloor>x\<rfloor>)"
      using bitlen_bounds [OF n] by auto
    then have "\<lfloor>x\<rfloor> + 1 \<le> 2 ^ nat (bitlen \<lfloor>x\<rfloor>)" by linarith
    then have "real_of_int (\<lfloor>x\<rfloor> + 1) \<le> real_of_int (2 ^ nat (bitlen \<lfloor>x\<rfloor>))" by linarith
    moreover have "x < real_of_int (\<lfloor>x\<rfloor> + 1)" by linarith
    ultimately have "x < real_of_int (2 ^ nat (bitlen \<lfloor>x\<rfloor>))" by linarith
    then have "x < 2 powi (bitlen \<lfloor>x\<rfloor>)"
      using bitlen_nonneg [of "\<lfloor>x\<rfloor>"] by (simp add: power_int_def)
    then show ?thesis using True by (simp add: ilog2_def)
  next
    case False
    define y where "y = 1 / x"
    have y: "1 < y" using False assms by (simp add: y_def)
    define m where "m = \<lceil>y\<rceil> - 1"
    have m: "0 < m" using y unfolding m_def by linarith
    have "2 powi (bitlen m - 1) \<le> real_of_int m" using bitlen_powi(1) [OF m] .
    also have "real_of_int m < y" by (simp add: m_def) linarith
    finally have "2 powi (bitlen m - 1) < 1 / x" by (simp add: y_def)
    then have "x < 1 / 2 powi (bitlen m - 1)"
      using assms by (simp add: field_simps)
    also have "\<dots> = 2 powi (- bitlen m + 1)"
      by (simp add: power_int_minus_divide [symmetric])
    finally show ?thesis
      using False by (simp add: ilog2_def m_def y_def)
  qed
qed

lemma ilog2_eqI:
  assumes "2 powi e \<le> x" "x < 2 powi (e + 1)"
  shows "ilog2 x = e"
proof -
  have x: "0 < x" using assms(1) zero_less_power_int [of "2::real" e] by linarith
  note b = ilog2_bounds [OF x]
  have "(2::real) powi e < 2 powi (ilog2 x + 1)" using assms(1) b(2) by linarith
  then have 1: "e < ilog2 x + 1"
    using power_int_increasing [of "ilog2 x + 1" e "2::real"] by (cases "e < ilog2 x + 1") auto
  have "(2::real) powi (ilog2 x) < 2 powi (e + 1)" using assms(2) b(1) by linarith
  then have 2: "ilog2 x < e + 1"
    using power_int_increasing [of "e + 1" "ilog2 x" "2::real"] by (cases "ilog2 x < e + 1") auto
  from 1 2 show ?thesis by linarith
qed

lemma round_even_near:
  assumes "\<bar>x - of_int m\<bar> < 1 / 2"
  shows "round_even x = m"
proof -
  have "\<lfloor>x\<rfloor> = m \<or> \<lfloor>x\<rfloor> = m - 1" using assms unfolding abs_less_iff by linarith
  then show ?thesis
  proof
    assume f: "\<lfloor>x\<rfloor> = m"
    then have "x - of_int m < 1 / 2" using assms unfolding abs_less_iff by linarith
    then show ?thesis by (simp add: round_even_def f Let_def)
  next
    assume f: "\<lfloor>x\<rfloor> = m - 1"
    have "- (1 / 2) < x - of_int m" using assms unfolding abs_less_iff by linarith
    then have "x - of_int (m - 1) > 1 / 2" by simp
    then show ?thesis by (simp add: round_even_def f Let_def)
  qed
qed

lemma round_even_of_int [simp]: "round_even (of_int m) = m"
  by (rule round_even_near) simp

lemma fl_0 [simp]: "fl 0 = 0"
  by (simp add: fl_def)

text \<open>Rounding is decided by the binade of the argument and the nearest multiple of the unit.\<close>

lemma fl_binade:
  assumes "2 powi e \<le> x" "x < 2 powi (e + 1)" "- 1022 \<le> e"
  shows "fl x = of_int (round_even (x / 2 powi (e - 52))) * 2 powi (e - 52)"
proof -
  have x: "0 < x" using assms(1) zero_less_power_int [of "2::real" e] by linarith
  have e: "ilog2 x = e" using assms(1,2) by (rule ilog2_eqI)
  have mx: "max e (- 1022) = e" using assms(3) by simp
  show ?thesis
    using x by (simp add: fl_def Let_def e mx)
qed

lemma fl_minus: "fl (- x) = - fl x"
  by (simp add: fl_def Let_def sgn_minus)

text \<open>A number \<open>n * 2^j\<close> with at most 53 significant bits is not changed.\<close>

lemma fl_exact:
  assumes "\<bar>n\<bar> \<le> 2 ^ 53" "- 1074 \<le> j"
  shows "fl (of_int n * 2 powi j) = of_int n * 2 powi j"
proof (cases "n = 0")
  case True
  then show ?thesis by simp
next
  case False
  define x where "x = real_of_int n * 2 powi j"
  have ax: "\<bar>x\<bar> = real_of_int \<bar>n\<bar> * 2 powi j"
    by (simp add: x_def abs_mult)
  have x0: "0 < \<bar>x\<bar>" using False by (simp add: x_def)
  define e where "e = max (ilog2 \<bar>x\<bar>) (- 1022)"
  note b = ilog2_bounds [OF x0]
  have le: "ilog2 \<bar>x\<bar> \<le> 53 + j"
  proof -
    have "2 powi (ilog2 \<bar>x\<bar>) \<le> real_of_int \<bar>n\<bar> * 2 powi j" using b(1) ax by simp
    also have "\<dots> \<le> 2 ^ 53 * 2 powi j"
    proof -
      have "real_of_int \<bar>n\<bar> \<le> real_of_int (2 ^ 53)" using assms(1) by linarith
      then show ?thesis by (intro mult_right_mono) simp_all
    qed
    also have "\<dots> = 2 powi (53 + j)" by (simp add: power_int_add)
    finally have "(2::real) powi (ilog2 \<bar>x\<bar>) \<le> 2 powi (53 + j)" .
    then show ?thesis
      using power_int_strict_increasing [of "53 + j" "ilog2 \<bar>x\<bar>" "2::real"]
      by (cases "ilog2 \<bar>x\<bar> \<le> 53 + j") auto
  qed
  have "\<exists>k. \<bar>x\<bar> / 2 powi (e - 52) = real_of_int k"
  proof (cases "e \<le> 52 + j")
    case True
    then have "0 \<le> j - e + 52" by simp
    then obtain d where d: "j - e + 52 = int d" using nonneg_int_cases by blast
    have "\<bar>x\<bar> / 2 powi (e - 52) = real_of_int \<bar>n\<bar> * 2 powi (j - (e - 52))"
      by (simp add: ax power_int_diff)
    also have "j - (e - 52) = int d" using d by simp
    also have "real_of_int \<bar>n\<bar> * 2 powi (int d) = real_of_int (\<bar>n\<bar> * 2 ^ d)" by simp
    finally show ?thesis by blast
  next
    case False
    then have ee: "e = 53 + j" "ilog2 \<bar>x\<bar> = 53 + j"
      using le assms(2) unfolding e_def max_def by (auto split: if_splits)
    have "2 powi (53 + j) \<le> real_of_int \<bar>n\<bar> * 2 powi j" using b(1) ax ee by simp
    then have "2 ^ 53 * 2 powi j \<le> real_of_int \<bar>n\<bar> * 2 powi j" by (simp add: power_int_add)
    then have "(2::real) ^ 53 \<le> real_of_int \<bar>n\<bar>" by simp
    moreover have "real_of_int \<bar>n\<bar> \<le> real_of_int (2 ^ 53)" using assms(1) by linarith
    ultimately have n: "real_of_int \<bar>n\<bar> = 2 ^ 53" by simp
    have "\<bar>x\<bar> / 2 powi (e - 52) = real_of_int \<bar>n\<bar> * 2 powi (j - (e - 52))"
      by (simp add: ax power_int_diff)
    also have "\<dots> = 2 ^ 53 * 2 powi (j - (e - 52))"
      by (simp only: n)
    also have "j - (e - 52) = - 1" using ee by simp
    also have "(2::real) ^ 53 * 2 powi (- 1) = real_of_int (2 ^ 52)" by simp
    finally show ?thesis by blast
  qed
  then obtain k where k: "\<bar>x\<bar> / 2 powi (e - 52) = real_of_int k" by blast
  then have "real_of_int k * 2 powi (e - 52) = \<bar>x\<bar>" by (simp add: field_simps)
  then have "fl x = sgn x * \<bar>x\<bar>"
    using x0 k by (simp add: fl_def Let_def e_def [symmetric] mult.assoc)
  then show ?thesis by (simp add: x_def [symmetric] sgn_mult_abs flip: abs_sgn)
qed

lemma fl_of_int: "\<bar>n\<bar> \<le> 2 ^ 53 \<Longrightarrow> fl (of_int n) = of_int n"
  using fl_exact [of n 0] by simp

lemma fl_numeral [simp]:
  "numeral k \<le> (9007199254740992 :: int) \<Longrightarrow> fl (numeral k) = numeral k"
  using fl_of_int [of "numeral k"] by simp

lemma fl_neg_numeral [simp]:
  "numeral k \<le> (9007199254740992 :: int) \<Longrightarrow> fl (- numeral k) = - numeral k"
  using fl_of_int [of "- numeral k"] by simp

lemma fl_1 [simp]: "fl 1 = 1"
  using fl_of_int [of 1] by simp

lemma fl_half [simp]:
  "numeral k \<le> (9007199254740992 :: int) \<Longrightarrow> fl (numeral k / 2) = numeral k / 2"
  using fl_exact [of "numeral k" "- 1"] by (simp add: power_int_minus_divide)

lemma fl_one_half [simp]: "fl (1 / 2) = 1 / 2"
  using fl_exact [of 1 "- 1"] by (simp add: power_int_minus_divide)

lemma fl_quarter [simp]: "fl (1 / 4) = 1 / 4"
  using fl_exact [of 1 "- 2"] by (simp add: power_int_minus_divide)

text \<open>Rounding to the nearest integer is monotone, and so is the binade.\<close>

lemma round_even_cases: "round_even x = \<lfloor>x\<rfloor> \<or> round_even x = \<lfloor>x\<rfloor> + 1"
  by (simp add: round_even_def Let_def)

lemma round_even_mono:
  assumes "x \<le> y"
  shows "round_even x \<le> round_even y"
proof (cases "\<lfloor>x\<rfloor> = \<lfloor>y\<rfloor>")
  case True
  have "x - of_int \<lfloor>y\<rfloor> \<le> y - of_int \<lfloor>y\<rfloor>" using assms by simp
  then show ?thesis
    by (simp add: round_even_def Let_def True)
next
  case False
  have "\<lfloor>x\<rfloor> \<le> \<lfloor>y\<rfloor>" using assms by (rule floor_mono)
  then have "\<lfloor>x\<rfloor> + 1 \<le> \<lfloor>y\<rfloor>" using False by linarith
  then show ?thesis
    using round_even_cases [of x] round_even_cases [of y] by linarith
qed

lemma round_even_ge: "of_int m \<le> x \<Longrightarrow> m \<le> round_even x"
  using round_even_mono [of "of_int m" x] by simp

lemma round_even_le: "x \<le> of_int m \<Longrightarrow> round_even x \<le> m"
  using round_even_mono [of x "of_int m"] by simp

lemma ilog2_mono:
  assumes "0 < x" "x \<le> y"
  shows "ilog2 x \<le> ilog2 y"
proof -
  have y: "0 < y" using assms by linarith
  have "(2::real) powi (ilog2 x) < 2 powi (ilog2 y + 1)"
    using ilog2_bounds(1) [OF assms(1)] ilog2_bounds(2) [OF y] assms(2) by linarith
  then have "ilog2 x < ilog2 y + 1"
    using power_int_increasing [of "ilog2 y + 1" "ilog2 x" "2::real"]
    by (cases "ilog2 x < ilog2 y + 1") auto
  then show ?thesis by linarith
qed

text \<open>The shape of a rounded positive number: a mantissa of at most 53 bits and a unit.\<close>

lemma fl_pos:
  assumes "0 < x"
  defines "e \<equiv> max (ilog2 x) (- 1022)"
  shows "fl x = of_int (round_even (x / 2 powi (e - 52))) * 2 powi (e - 52)"
    and "0 \<le> round_even (x / 2 powi (e - 52))"
    and "round_even (x / 2 powi (e - 52)) \<le> 2 ^ 53"
    and "- 1022 \<le> ilog2 x \<Longrightarrow> 2 ^ 52 \<le> round_even (x / 2 powi (e - 52))"
proof -
  let ?u = "(2::real) powi (e - 52)"
  have u: "0 < ?u" by simp
  show "fl x = of_int (round_even (x / ?u)) * ?u"
    using assms(1) by (simp add: fl_def Let_def e_def)
  have "of_int 0 \<le> x / ?u" using assms(1) by simp
  then show "0 \<le> round_even (x / ?u)" by (rule round_even_ge)
  have "x < 2 powi (ilog2 x + 1)" using ilog2_bounds(2) [OF assms(1)] .
  also have "\<dots> \<le> 2 powi (e + 1)"
    by (rule power_int_increasing) (simp_all add: e_def)
  also have "\<dots> = 2 ^ 53 * ?u" by (simp add: power_int_add power_int_diff)
  finally have "x / ?u \<le> 2 ^ 53" by (simp add: field_simps)
  then have "x / ?u \<le> of_int (2 ^ 53)" by simp
  then show "round_even (x / ?u) \<le> 2 ^ 53" by (rule round_even_le)
  show "2 ^ 52 \<le> round_even (x / ?u)" if n: "- 1022 \<le> ilog2 x"
  proof -
    have ee: "e = ilog2 x" using n by (simp add: e_def)
    have "2 ^ 52 * ?u = 2 powi e" by (simp add: power_int_diff)
    also have "\<dots> \<le> x" using ilog2_bounds(1) [OF assms(1)] by (simp add: ee)
    finally have "2 ^ 52 \<le> x / ?u" by (simp add: field_simps)
    then have "of_int (2 ^ 52) \<le> x / ?u" by simp
    then show ?thesis by (rule round_even_ge)
  qed
qed

text \<open>
  Rounding to a double is monotone, and a double is changed neither by rounding nor by
  doubling.
\<close>

lemma fl_nonneg: "0 \<le> x \<Longrightarrow> 0 \<le> fl x"
proof (cases "x = 0")
  case False
  assume "0 \<le> x"
  then have x: "0 < x" using False by simp
  show ?thesis using fl_pos(1,2) [OF x] by simp
qed simp

lemma fl_mono_pos:
  assumes "0 < x" "x \<le> y"
  shows "fl x \<le> fl y"
proof -
  have y: "0 < y" using assms by linarith
  define ex where "ex = max (ilog2 x) (- 1022)"
  define ey where "ey = max (ilog2 y) (- 1022)"
  have le: "ex \<le> ey" using ilog2_mono [OF assms] by (simp add: ex_def ey_def)
  note fx = fl_pos [OF assms(1), folded ex_def]
  note fy = fl_pos [OF y, folded ey_def]
  show ?thesis
  proof (cases "ex = ey")
    case True
    have "x / 2 powi (ey - 52) \<le> y / 2 powi (ey - 52)"
      using assms(2) by (simp add: divide_right_mono)
    then have "round_even (x / 2 powi (ey - 52)) \<le> round_even (y / 2 powi (ey - 52))"
      by (rule round_even_mono)
    then show ?thesis
      unfolding fx(1) fy(1) True by (simp add: mult_right_mono)
  next
    case False
    then have lt: "ex < ey" using le by linarith
    then have n: "- 1022 \<le> ilog2 y" "ey = ilog2 y"
      by (auto simp add: ex_def ey_def max_def split: if_splits)
    have "fl x \<le> 2 ^ 53 * 2 powi (ex - 52)"
    proof -
      have "real_of_int (round_even (x / 2 powi (ex - 52))) \<le> real_of_int (2 ^ 53)"
        using fx(3) by linarith
      then show ?thesis unfolding fx(1) by (intro mult_right_mono) simp_all
    qed
    also have "\<dots> = 2 powi (ex + 1)" by (simp add: power_int_add power_int_diff)
    also have "\<dots> \<le> 2 powi ey" using lt by (intro power_int_increasing) simp_all
    also have "\<dots> = 2 ^ 52 * 2 powi (ey - 52)" by (simp add: power_int_diff)
    also have "\<dots> \<le> fl y"
    proof -
      have "real_of_int (2 ^ 52) \<le> real_of_int (round_even (y / 2 powi (ey - 52)))"
        using fy(4) [OF n(1)] by linarith
      then show ?thesis unfolding fy(1) by (intro mult_right_mono) simp_all
    qed
    finally show ?thesis .
  qed
qed

lemma fl_mono:
  assumes "x \<le> y"
  shows "fl x \<le> fl y"
proof -
  consider "0 < x" | "x \<le> 0" "0 \<le> y" | "y < 0" by linarith
  then show ?thesis
  proof cases
    case 1
    then show ?thesis using assms by (rule fl_mono_pos)
  next
    case 2
    have "fl x \<le> 0" using fl_nonneg [of "- x"] 2(1) by (simp add: fl_minus)
    then show ?thesis using fl_nonneg [OF 2(2)] by linarith
  next
    case 3
    then have "0 < - y" "- y \<le> - x" using assms by simp_all
    then have "fl (- y) \<le> fl (- x)" by (rule fl_mono_pos)
    then show ?thesis by (simp add: fl_minus)
  qed
qed

lemma fl_form: "\<exists>n j. fl x = of_int n * 2 powi j \<and> \<bar>n\<bar> \<le> 2 ^ 53 \<and> - 1074 \<le> j"
proof -
  have pos: "\<exists>n j. fl x = of_int n * 2 powi j \<and> \<bar>n\<bar> \<le> 2 ^ 53 \<and> - 1074 \<le> j" if x: "0 < x" for x
  proof (intro exI conjI)
    show "fl x = of_int (round_even (x / 2 powi (max (ilog2 x) (- 1022) - 52)))
                   * 2 powi (max (ilog2 x) (- 1022) - 52)"
      using fl_pos(1) [OF x] .
    show "\<bar>round_even (x / 2 powi (max (ilog2 x) (- 1022) - 52))\<bar> \<le> 2 ^ 53"
      using fl_pos(2,3) [OF x] by simp
    show "- 1074 \<le> max (ilog2 x) (- 1022) - 52" by simp
  qed
  consider "0 < x" | "x = 0" | "0 < - x" by linarith
  then show ?thesis
  proof cases
    case 1
    then show ?thesis by (rule pos)
  next
    case 2
    have "fl x = of_int 0 * 2 powi 0" using 2 by simp
    then show ?thesis by (intro exI [of _ 0] exI [of _ "0::int"]) simp
  next
    case 3
    from pos [OF 3] obtain n j where
      "fl (- x) = of_int n * 2 powi j" "\<bar>n\<bar> \<le> 2 ^ 53" "- 1074 \<le> j" by blast
    then have "fl x = of_int (- n) * 2 powi j \<and> \<bar>- n\<bar> \<le> 2 ^ 53 \<and> - 1074 \<le> j"
      by (simp add: fl_minus)
    then show ?thesis by blast
  qed
qed

lemma fl_idem [simp]: "fl (fl x) = fl x"
proof -
  obtain n j where f: "fl x = of_int n * 2 powi j" "\<bar>n\<bar> \<le> 2 ^ 53" "- 1074 \<le> j"
    using fl_form [of x] by blast
  show ?thesis unfolding f(1) using f(2,3) by (rule fl_exact)
qed

lemma fl_twice: "fl (2 * fl x) = 2 * fl x"
proof -
  obtain n j where f: "fl x = of_int n * 2 powi j" "\<bar>n\<bar> \<le> 2 ^ 53" "- 1074 \<le> j"
    using fl_form [of x] by blast
  have "2 * fl x = of_int n * 2 powi (j + 1)" by (simp add: f(1) power_int_add)
  moreover have "fl (of_int n * 2 powi (j + 1)) = of_int n * 2 powi (j + 1)"
    using f(2,3) by (intro fl_exact) simp_all
  ultimately show ?thesis by simp
qed

subsection \<open>The example engine\<close>

lemmas engine_defs =
  tick_def tick_settle_def tick_time_def clamp_startTime_def rebase_on_delay_def tick_repeat_def
  tick_done_def isAnimationFinished_def sample_at_def n_div_def falsy_def mod1_def
  updateTime_def emit_def stopDriver_def teardown_def finish_def
  set_time_def set_speed_def play_def pause_def stop_def complete_def cancel_def
  secondsToMilliseconds_def millisecondsToSeconds_def at_index_def Let_def

lemmas example_defs =
  example_env_def example_options_def example_engine_def linear_def num_of_def
  getFinalKeyframe_spec_def example_repeat_options_def example_loop_options_def
  example_delay_options_def example_reversing_def example_looping_def

text \<open>
  In the example environment, with both clocks at \<open>0\<close>, the constructor returns
  \<open>example_engine\<close>.
\<close>

lemma constructor_example:
  assumes "otype opts = None" "opt_startTime opts = None" "\<not> has_onPlay opts" "autoplay opts"
  shows "constructor (example_env d) opts count 0 0 = Inr (example_engine opts d count)"
proof -
  have i: "initAnimation (example_env d) (declared opts count)
        = Inr ((declared opts count)
                 \<lparr>mirroredGenerator :=
                    (if repeatType opts = Some Mirror
                     then Some (linear d (rev (keyframes opts))) else None),
                  calculatedDuration := Some d,
                  resolvedDuration := fl (d + repeatDelay opts),
                  totalDuration :=
                    fl (fl (fl (d + repeatDelay opts) * (real (repeat opts) + 1))
                          - repeatDelay opts),
                  generator := linear d (keyframes opts)\<rparr>)"
    using assms(1)
    by (cases "repeatType opts = Some Mirror")
       (simp_all add: initAnimation_def declared_def example_env_def Let_def linear_def)
  show ?thesis
    unfolding constructor_def i using assms
    by (simp add: declared_def play_def emit_def example_engine_def)
qed

subsection \<open>What the parts of \<open>tick\<close> change\<close>

lemma clamp_startTime_shape: "\<exists>a. clamp_startTime this st ts = this\<lparr>startTime := a\<rparr>"
  unfolding clamp_startTime_def
  by (metis JSAnimation.surjective JSAnimation.update_convs(2))

lemma updateTime_shape: "\<exists>b. updateTime this ts = this\<lparr>currentTime := b\<rparr>"
  unfolding updateTime_def Let_def by (cases "holdTime this") auto

lemma rebase_on_delay_shape: "\<exists>b. fst (rebase_on_delay this) = this\<lparr>currentTime := b\<rparr>"
  unfolding rebase_on_delay_def Let_def by auto

lemma tick_time_shape:
  "\<exists>a b. fst (tick_time this st ts smp) = this\<lparr>startTime := a, currentTime := b\<rparr>"
proof -
  obtain a where 1: "clamp_startTime this st ts = this\<lparr>startTime := a\<rparr>"
    using clamp_startTime_shape by blast
  obtain b where 2: "(if smp then (this\<lparr>startTime := a\<rparr>)\<lparr>currentTime := ts\<rparr>
                      else updateTime (this\<lparr>startTime := a\<rparr>) ts)
                     = this\<lparr>startTime := a, currentTime := b\<rparr>"
    using updateTime_shape [of "this\<lparr>startTime := a\<rparr>" ts] by (cases smp) auto
  obtain c where 3: "fst (rebase_on_delay (this\<lparr>startTime := a, currentTime := b\<rparr>))
                     = this\<lparr>startTime := a, currentTime := c\<rparr>"
    using rebase_on_delay_shape [of "this\<lparr>startTime := a, currentTime := b\<rparr>"] by auto
  show ?thesis
    unfolding tick_time_def Let_def 1 2 using 3 by blast
qed

lemma tick_time_frame:
  "state (fst (tick_time this st ts smp)) = state this"
  "holdTime (fst (tick_time this st ts smp)) = holdTime this"
  "playbackSpeed (fst (tick_time this st ts smp)) = playbackSpeed this"
  "options (fst (tick_time this st ts smp)) = options this"
  "generator (fst (tick_time this st ts smp)) = generator this"
  "mirroredGenerator (fst (tick_time this st ts smp)) = mirroredGenerator this"
  "mixKeyframes (fst (tick_time this st ts smp)) = mixKeyframes this"
  "calculatedDuration (fst (tick_time this st ts smp)) = calculatedDuration this"
  "resolvedDuration (fst (tick_time this st ts smp)) = resolvedDuration this"
  "totalDuration (fst (tick_time this st ts smp)) = totalDuration this"
  "mainThread (fst (tick_time this st ts smp)) = mainThread this"
  "events (fst (tick_time this st ts smp)) = events this"
  "driver (fst (tick_time this st ts smp)) = driver this"
  "isStopped (fst (tick_time this st ts smp)) = isStopped this"
  using tick_time_shape [of this st ts smp] by auto

lemma teardown_fields:
  "state (teardown t) = Idle" "startTime (teardown t) = None" "holdTime (teardown t) = None"
  "driver (teardown t) = False" "mainThread (teardown t) = mainThread t - 1"
  "currentTime (teardown t) = currentTime t" "playbackSpeed (teardown t) = playbackSpeed t"
  "totalDuration (teardown t) = totalDuration t" "options (teardown t) = options t"
  "events (teardown t) = events t @ (if driver t then [DriverStop] else [])"
  by (simp_all add: teardown_def stopDriver_def emit_def Let_def)

lemma finish_fields:
  "state (finish t) = Finished" "mainThread (finish t) = mainThread t - 1"
  "currentTime (finish t) = currentTime t" "playbackSpeed (finish t) = playbackSpeed t"
  "totalDuration (finish t) = totalDuration t" "options (finish t) = options t"
  by (simp_all add: finish_def emit_def Let_def teardown_fields)

lemma finish_events:
  "events (finish t)
     = events t @ [NotifyFinished] @ (if driver t then [DriverStop] else [])
         @ (if has_onComplete (options t) then [OnComplete] else [])"
  "startTime (finish t) = None" "holdTime (finish t) = None" "driver (finish t) = False"
  by (simp_all add: finish_def emit_def Let_def teardown_def stopDriver_def)

lemma emit_fields:
  "state (emit e t) = state t" "mainThread (emit e t) = mainThread t"
  "currentTime (emit e t) = currentTime t" "playbackSpeed (emit e t) = playbackSpeed t"
  "totalDuration (emit e t) = totalDuration t" "options (emit e t) = options t"
  "driver (emit e t) = driver t" "events (emit e t) = events t @ [e]"
  by (simp_all add: emit_def)

lemma tick_settle_done: "sdone (snd (tick_settle env t d s0)) = sdone s0"
  by (simp add: tick_settle_def Let_def split: option.splits)

lemma tick_settle_counter:
  "mainThread (fst (tick_settle env t d s0))
     = (if isAnimationFinished t (tick_done t d (sdone s0)) then mainThread t - 1
        else mainThread t)"
  by (simp add: tick_settle_def Let_def finish_fields emit_fields split: option.splits)

lemma tick_settle_frame:
  "currentTime (fst (tick_settle env t d s0)) = currentTime t"
  "playbackSpeed (fst (tick_settle env t d s0)) = playbackSpeed t"
  "totalDuration (fst (tick_settle env t d s0)) = totalDuration t"
  by (simp_all add: tick_settle_def Let_def finish_fields emit_fields)

lemma tick_settle_finished:
  assumes "isAnimationFinished t (tick_done t d (sdone s0))"
  shows "state (fst (tick_settle env t d s0)) = Finished"
    and "startTime (fst (tick_settle env t d s0)) = None"
    and "holdTime (fst (tick_settle env t d s0)) = None"
    and "\<not> driver (fst (tick_settle env t d s0))"
    and "events (fst (tick_settle env t d s0))
           = events t
             @ (if has_onUpdate (options t)
                then [OnUpdate (svalue (snd (tick_settle env t d s0)))] else [])
             @ [NotifyFinished] @ (if driver t then [DriverStop] else [])
             @ (if has_onComplete (options t) then [OnComplete] else [])"
    and "svalue (snd (tick_settle env t d s0))
           = (if otype (options t) \<noteq> Some inertia
              then getFinalKeyframe env (keyframes (options t)) (options t)
                     (finalKeyframe (options t)) (playbackSpeed t)
              else mixed t (svalue s0))"
  using assms
  by (simp_all add: tick_settle_def Let_def finish_fields finish_events emit_fields mixed_def
      split: option.splits)

lemma tick_settle_running:
  assumes "\<not> isAnimationFinished t (tick_done t d (sdone s0))"
  shows "state (fst (tick_settle env t d s0)) = state t"
    and "startTime (fst (tick_settle env t d s0)) = startTime t"
    and "holdTime (fst (tick_settle env t d s0)) = holdTime t"
    and "driver (fst (tick_settle env t d s0)) = driver t"
    and "events (fst (tick_settle env t d s0))
           = events t
             @ (if has_onUpdate (options t)
                then [OnUpdate (svalue (snd (tick_settle env t d s0)))] else [])"
    and "svalue (snd (tick_settle env t d s0)) = mixed t (svalue s0)"
  using assms
  by (simp_all add: tick_settle_def Let_def emit_def mixed_def split: option.splits)

text \<open>\<open>tick\<close> once \<open>startTime\<close> is set, in terms of its parts.\<close>

lemma tick_started:
  assumes "startTime this = Some st"
  shows "tick env this ts smp =
     (if snd (tick_time this st ts smp)
      then Inr (tick_settle env (fst (tick_time this st ts smp)) True
                  \<lparr>sdone = False, svalue = at_index (keyframes (options this)) 0\<rparr>)
      else (case snd (tick_repeat (fst (tick_time this st ts smp))) of
              None \<Rightarrow> Inl TypeError
            | Some g \<Rightarrow>
               Inr (tick_settle env (fst (tick_time this st ts smp)) False
                      (sample_at g (fst (tick_repeat (fst (tick_time this st ts smp)))))))) "
  using assms by (simp add: tick_def split: prod.splits option.splits)

subsection \<open>Durations\<close>

text \<open>
  With at least one repeat the rounded total duration is not below the generator's
  duration.
\<close>

lemma total_ge_calculated:
  assumes "fl cd = cd" "fl rd = rd" "0 \<le> cd" "0 \<le> rd" "1 \<le> r"
  shows "cd \<le> fl (fl (fl (cd + rd) * (real r + 1)) - rd)"
proof -
  define res where "res = fl (cd + rd)"
  have r0: "cd \<le> res" using fl_mono [of cd "cd + rd"] assms(1,4) by (simp add: res_def)
  have r1: "rd \<le> res" using fl_mono [of rd "cd + rd"] assms(2,3) by (simp add: res_def)
  have rn: "0 \<le> res" using r0 assms(3) by linarith
  have "2 * res \<le> res * (real r + 1)"
  proof -
    have "2 \<le> real r + 1" using assms(5) by simp
    then have "res * 2 \<le> res * (real r + 1)" using rn by (rule mult_left_mono)
    then show ?thesis by (simp add: mult.commute)
  qed
  then have "fl (2 * res) \<le> fl (res * (real r + 1))" by (rule fl_mono)
  then have "2 * res \<le> fl (res * (real r + 1))" by (simp add: res_def fl_twice)
  then have "res \<le> fl (res * (real r + 1)) - rd" using r1 by linarith
  then have "fl res \<le> fl (fl (res * (real r + 1)) - rd)" by (rule fl_mono)
  then have "res \<le> fl (fl (res * (real r + 1)) - rd)" by (simp add: res_def)
  then show ?thesis using r0 by (simp add: res_def)
qed

text \<open>What \<open>initAnimation\<close> throws, and what it assigns when it returns.\<close>

lemma initAnimation_raises:
  assumes "initAnimation env this = Inl e"
  shows "development env \<and> otype (options this) \<noteq> None
         \<and> otype (options this) \<noteq> Some keyframesGenerator
         \<and> 2 < length (keyframes (options this))"
  using assms
  by (auto simp add: initAnimation_def Let_def invariant_def split: if_splits option.splits)

lemma initAnimation_returns:
  assumes "initAnimation env this = Inr this'"
  shows "\<exists>cd. calculatedDuration this' = Some cd
           \<and> gen_calculatedDuration (generator this') = Some cd
           \<and> resolvedDuration this' = fl (cd + repeatDelay (options this))
           \<and> totalDuration this'
               = fl (fl (fl (cd + repeatDelay (options this))
                           * (real (repeat (options this)) + 1))
                     - repeatDelay (options this))"
  using assms
  by (auto simp add: initAnimation_def Let_def split: sum.splits if_splits)

text \<open>
  C2, as amended. \<open>initAnimation\<close> throws only the two-keyframe assertion of a
  development build; in every other case it returns, and then, in the arithmetic of
  doubles, \<open>resolvedDuration = calculatedDuration + repeatDelay\<close> and \<open>totalDuration =
  resolvedDuration * (repeat + 1) - repeatDelay\<close>, for every repeat count (a natural
  number) and every repeat delay. When \<open>calculatedDuration\<close> and \<open>repeatDelay\<close> are
  non-negative doubles, \<open>totalDuration \<ge> calculatedDuration\<close> if \<open>repeat \<ge> 1\<close>; with
  \<open>repeat = 0\<close>, \<open>totalDuration = calculatedDuration\<close> if the sum \<open>calculatedDuration +
  repeatDelay\<close> is itself a double.
\<close>

theorem initAnimation_durations:
  "case initAnimation env this of
     Inl e \<Rightarrow> development env \<and> otype (options this) \<noteq> None
              \<and> otype (options this) \<noteq> Some keyframesGenerator
              \<and> 2 < length (keyframes (options this))
   | Inr this' \<Rightarrow>
      (\<exists>cd. calculatedDuration this' = Some cd
         \<and> resolvedDuration this' = fl (cd + repeatDelay (options this))
         \<and> totalDuration this'
             = fl (fl (resolvedDuration this' * (real (repeat (options this)) + 1))
                   - repeatDelay (options this))
         \<and> (fl cd = cd \<longrightarrow> fl (repeatDelay (options this)) = repeatDelay (options this)
              \<longrightarrow> 0 \<le> cd \<longrightarrow> 0 \<le> repeatDelay (options this)
              \<longrightarrow> 1 \<le> repeat (options this) \<longrightarrow> cd \<le> totalDuration this')
         \<and> (fl cd = cd
              \<longrightarrow> fl (cd + repeatDelay (options this)) = cd + repeatDelay (options this)
              \<longrightarrow> repeat (options this) = 0 \<longrightarrow> totalDuration this' = cd))"
proof (cases "initAnimation env this")
  case (Inl e)
  then show ?thesis using initAnimation_raises [OF Inl] by simp
next
  case (Inr this')
  obtain cd where r: "calculatedDuration this' = Some cd"
      "resolvedDuration this' = fl (cd + repeatDelay (options this))"
      "totalDuration this'
         = fl (fl (fl (cd + repeatDelay (options this)) * (real (repeat (options this)) + 1))
               - repeatDelay (options this))"
    using initAnimation_returns [OF Inr] by blast
  have a: "cd \<le> totalDuration this'"
    if "fl cd = cd" "fl (repeatDelay (options this)) = repeatDelay (options this)"
       "0 \<le> cd" "0 \<le> repeatDelay (options this)" "1 \<le> repeat (options this)"
    unfolding r(3) using that by (rule total_ge_calculated)
  have b: "totalDuration this' = cd"
    if "fl cd = cd" "fl (cd + repeatDelay (options this)) = cd + repeatDelay (options this)"
       "repeat (options this) = 0"
    unfolding r(3) using that by simp
  show ?thesis
    unfolding Inr sum.case
  proof (intro exI conjI impI)
    show "calculatedDuration this' = Some cd" by (rule r(1))
    show "resolvedDuration this' = fl (cd + repeatDelay (options this))" by (rule r(2))
    show "totalDuration this'
            = fl (fl (resolvedDuration this' * (real (repeat (options this)) + 1))
                  - repeatDelay (options this))"
      unfolding r(2) by (rule r(3))
    show "cd \<le> totalDuration this'"
      if "fl cd = cd" "fl (repeatDelay (options this)) = repeatDelay (options this)"
       "0 \<le> cd" "0 \<le> repeatDelay (options this)" "1 \<le> repeat (options this)"
      using that by (rule a)
    show "totalDuration this' = cd"
      if "fl cd = cd" "fl (cd + repeatDelay (options this)) = cd + repeatDelay (options this)"
       "repeat (options this) = 0"
      using that by (rule b)
  qed
qed

text \<open>\<open>initAnimation\<close> in the example environment.\<close>

lemma initAnimation_example:
  "initAnimation (example_env d) (declared (example_options\<lparr>repeat := r, repeatDelay := rd\<rparr>) 0)
     = Inr ((declared (example_options\<lparr>repeat := r, repeatDelay := rd\<rparr>) 0)
              \<lparr>calculatedDuration := Some d, resolvedDuration := fl (d + rd),
               totalDuration := fl (fl (fl (d + rd) * (real r + 1)) - rd),
               generator := linear d [Num 0, Num 1]\<rparr>)"
  by (simp add: initAnimation_def declared_def example_env_def
      example_options_def Let_def is_number_def at_index_def linear_def)

theorem initAnimation_durations_witness:
  "map_sum id calculatedDuration
     (initAnimation (example_env 1000) (declared example_repeat_options 0)) = Inr (Some 1000)
   \<and> map_sum id resolvedDuration
       (initAnimation (example_env 1000) (declared example_repeat_options 0)) = Inr 1100
   \<and> map_sum id totalDuration
       (initAnimation (example_env 1000) (declared example_repeat_options 0)) = Inr 3200
   \<and> fl 1000 = 1000 \<and> repeatDelay example_repeat_options = 100 \<and> fl 100 = 100
   \<and> repeat example_repeat_options = 2 \<and> (1000 :: real) \<le> 3200"
proof -
  let ?a = "declared example_repeat_options 0"
  note t = initAnimation_durations [of "example_env 1000" ?a]
  have o: "options ?a = example_repeat_options"
    "repeatDelay example_repeat_options = 100" "repeat example_repeat_options = 2"
    by (simp_all add: declared_def example_repeat_options_def example_options_def)
  obtain this' where i: "initAnimation (example_env 1000) ?a = Inr this'"
    using t by (cases "initAnimation (example_env 1000) ?a")
      (simp_all add: declared_def example_repeat_options_def example_options_def)
  obtain cd where r: "calculatedDuration this' = Some cd"
    "resolvedDuration this' = fl (cd + 100)"
    "totalDuration this' = fl (fl (resolvedDuration this' * (real 2 + 1)) - 100)"
    "fl cd = cd \<longrightarrow> 0 \<le> cd \<longrightarrow> cd \<le> totalDuration this'"
    using t unfolding i sum.case o by auto
  have c: "cd = 1000"
    using i r(1)
    by (auto simp add: initAnimation_def declared_def example_env_def example_repeat_options_def
        example_options_def Let_def is_number_def at_index_def linear_def)
  show ?thesis
    using r unfolding i c by (simp add: o)
qed

text \<open>
  The roundings of the example below: \<open>1000 + 100.1\<close> is rounded down to the double
  \<open>1100.1\<close>, and \<open>1100.1 - 100.1\<close> comes out as \<open>999.9999999999999\<close>.
\<close>

lemma example_rounding_resolved:
  "fl (1000 + 3521955646092083 / 35184372088832) = 2419145483432755 / 2199023255552"
  by (subst fl_binade [where e = 10]) (simp_all add: round_even_def Let_def)

lemma example_rounding_total:
  "fl (2419145483432755 / 2199023255552 - 3521955646092083 / 35184372088832)
     = 8796093022207999 / 8796093022208"
  by (subst fl_binade [where e = 9]) (simp_all add: round_even_def Let_def)

lemma example_rounding_delay:
  "fl (3521955646092083 / 35184372088832) = 3521955646092083 / 35184372088832"
  using fl_exact [of 3521955646092083 "- 45"] by (simp add: power_int_minus_divide)

text \<open>
  C2 as stated fails for the inequality. With \<open>repeat = 0\<close>, a generator of duration
  \<open>1000\<close> and the repeat delay \<open>100.1\<close>, \<open>totalDuration\<close> is \<open>999.9999999999999\<close>
  (\<open>8796093022207999 / 2^43\<close>), below \<open>calculatedDuration = 1000\<close>. And with a generator
  that reports the duration \<open>-1000\<close> and \<open>repeat = 1\<close>, \<open>totalDuration\<close> is \<open>-2000\<close>.
\<close>

theorem initAnimation_durations_counterexample:
  "map_sum id calculatedDuration
     (initAnimation (example_env 1000) (declared example_rounding_options 0)) = Inr (Some 1000)
   \<and> map_sum id totalDuration
       (initAnimation (example_env 1000) (declared example_rounding_options 0))
       = Inr (8796093022207999 / 8796093022208)
   \<and> 8796093022207999 / 8796093022208 < (1000 :: real)
   \<and> repeat example_rounding_options = 0
   \<and> 0 \<le> repeatDelay example_rounding_options
   \<and> fl (repeatDelay example_rounding_options) = repeatDelay example_rounding_options
   \<and> map_sum id calculatedDuration
       (initAnimation (example_env (- 1000)) (declared example_loop_options 0))
       = Inr (Some (- 1000))
   \<and> map_sum id totalDuration
       (initAnimation (example_env (- 1000)) (declared example_loop_options 0)) = Inr (- 2000)
   \<and> repeat example_loop_options = 1 \<and> repeatDelay example_loop_options = 0"
proof -
  have a: "example_rounding_options
             = example_options\<lparr>repeat := 0, repeatDelay := 3521955646092083 / 35184372088832\<rparr>"
    by (simp add: example_rounding_options_def example_options_def)
  have b: "example_loop_options = example_options\<lparr>repeat := 1, repeatDelay := 0\<rparr>"
    by (simp add: example_loop_options_def example_options_def)
  have r: "fl (fl (2419145483432755 / 2199023255552)
                - 3521955646092083 / 35184372088832)
             = 8796093022207999 / 8796093022208"
  proof -
    have "fl (2419145483432755 / 2199023255552) = 2419145483432755 / 2199023255552"
      using fl_idem [of "1000 + 3521955646092083 / 35184372088832"]
      by (simp only: example_rounding_resolved)
    then show ?thesis by (simp only: example_rounding_total)
  qed
  have 1: "map_sum id calculatedDuration
     (initAnimation (example_env 1000) (declared example_rounding_options 0)) = Inr (Some 1000)"
    unfolding a initAnimation_example by simp
  have 2: "map_sum id totalDuration
       (initAnimation (example_env 1000) (declared example_rounding_options 0))
       = Inr (8796093022207999 / 8796093022208)"
  proof -
    have t: "fl (fl (fl (1000 + 3521955646092083 / 35184372088832) * (real 0 + 1))
                 - 3521955646092083 / 35184372088832)
               = 8796093022207999 / 8796093022208"
      by (simp only: example_rounding_resolved of_nat_0 add_0 mult_1_right r)
    show ?thesis unfolding a initAnimation_example t by simp
  qed
  have 3: "map_sum id calculatedDuration
       (initAnimation (example_env (- 1000)) (declared example_loop_options 0))
       = Inr (Some (- 1000))"
    unfolding b initAnimation_example by simp
  have 4: "map_sum id totalDuration
       (initAnimation (example_env (- 1000)) (declared example_loop_options 0)) = Inr (- 2000)"
    unfolding b initAnimation_example by simp
  have 5: "repeat example_rounding_options = 0"
      "0 \<le> repeatDelay example_rounding_options"
      "fl (repeatDelay example_rounding_options) = repeatDelay example_rounding_options"
      "repeat example_loop_options = 1" "repeatDelay example_loop_options = 0"
    by (simp_all add: a b example_rounding_delay)
  have 6: "8796093022207999 / 8796093022208 < (1000 :: real)" by simp
  show ?thesis using 1 2 3 4 5 6 by blast
qed

subsection \<open>The two-keyframe assertion\<close>

text \<open>
  C9. In a development build \<open>initAnimation\<close> raises the assertion exactly when the
  generator factory is not the keyframes generator and more than two keyframes are
  given; the message then ends with the keyframes, joined by commas. With the
  keyframes generator, or with at most two keyframes, it returns.
\<close>

theorem initAnimation_invariant:
  assumes "development env"
  shows "case initAnimation env this of
           Inl e \<Rightarrow> otype (options this) \<noteq> None
                    \<and> otype (options this) \<noteq> Some keyframesGenerator
                    \<and> 2 < length (keyframes (options this))
                    \<and> e = InvariantError
                         (''Only two keyframes currently supported with spring and inertia animations. Trying to animate ''
                          @ joined (toString env) (keyframes (options this)))
                         ''spring-two-frames''
         | Inr this' \<Rightarrow> otype (options this) = None
                    \<or> otype (options this) = Some keyframesGenerator
                    \<or> length (keyframes (options this)) \<le> 2"
  using assms
  by (auto simp add: initAnimation_def Let_def invariant_def two_frames_message_def
      split: sum.splits option.splits)

theorem initAnimation_invariant_witness:
  "development (example_env 1000)
   \<and> initAnimation (example_env 1000) (declared example_spring_options 0)
       = Inl (InvariantError
               ''Only two keyframes currently supported with spring and inertia animations. Trying to animate a,b,c''
               ''spring-two-frames'')"
proof -
  have h: "development (example_env 1000)"
    by (simp add: example_env_def)
  note t = initAnimation_invariant [OF h, of "declared example_spring_options 0"]
  show ?thesis
  proof (cases "initAnimation (example_env 1000) (declared example_spring_options 0)")
    case (Inl e)
    with t h show ?thesis
      by (simp add: declared_def example_spring_options_def example_options_def example_env_def)
  next
    case (Inr this')
    with t show ?thesis
      by (simp add: declared_def example_spring_options_def example_options_def)
  qed
qed

subsection \<open>Ticks before the start\<close>

text \<open>
  C8. A call of \<open>tick\<close> while \<open>startTime\<close> is \<open>null\<close> returns the generator's sample at
  \<open>t = 0\<close> and leaves the engine as it was, every field included, whatever the
  timestamp and the \<open>sample\<close> flag.
\<close>

theorem tick_unstarted:
  "startTime this = None \<Longrightarrow>
     tick env this timestamp smp = Inr (this, gnext (generator this) 0)"
  by (simp add: tick_def)

theorem tick_unstarted_witness:
  "startTime (teardown (example_engine example_options 1000 0)) = None
   \<and> tick (example_env 1000) (teardown (example_engine example_options 1000 0)) 16 False
       = Inr (teardown (example_engine example_options 1000 0), \<lparr>sdone = False, svalue = Num 0\<rparr>)"
proof -
  have h: "startTime (teardown (example_engine example_options 1000 0)) = None"
    by (simp add: teardown_def Let_def)
  have g: "gnext (generator (teardown (example_engine example_options 1000 0))) 0
             = \<lparr>sdone = False, svalue = Num 0\<rparr>"
    by (simp add: teardown_def Let_def stopDriver_def emit_def example_engine_def example_options_def linear_def
        at_index_def num_of_def)
  show ?thesis
    using h tick_unstarted [OF h, of "example_env 1000" 16 False] g by simp
qed

subsection \<open>Seeking\<close>

text \<open>
  The setter of \<open>time\<close> stores the double nearest to \<open>1000 * x\<close> in \<open>currentTime\<close>, and the
  getter returns the double nearest to a thousandth of \<open>currentTime\<close>.
\<close>

lemma get_set_time: "get_time (set_time this now x) = fl (fl (x * 1000) / 1000)"
  by (simp add: get_time_def set_time_def Let_def emit_def secondsToMilliseconds_def
      millisecondsToSeconds_def)

text \<open>
  C6, as amended. Reading \<open>time\<close> after writing \<open>x\<close> returns \<open>x * 1000 / 1000\<close> as doubles
  compute it, whatever the state of the engine, paused or not. That is \<open>x\<close> itself when
  \<open>x\<close> is a double whose product with \<open>1000\<close> is a double as well.
\<close>

theorem time_roundtrip:
  "get_time (set_time this now x) = fl (fl (x * 1000) / 1000)
   \<and> (fl x = x \<longrightarrow> fl (x * 1000) = x * 1000 \<longrightarrow> get_time (set_time this now x) = x)"
  by (simp add: get_set_time)

theorem time_roundtrip_witness:
  "state example_paused = Paused
   \<and> fl (1 / 4) = 1 / 4 \<and> fl (1 / 4 * 1000) = 1 / 4 * 1000
   \<and> get_time (set_time example_paused 100 (1 / 4)) = 1 / 4"
proof -
  have h: "fl (1 / 4) = 1 / 4" "fl (1 / 4 * 1000) = 1 / 4 * 1000"
    by simp_all
  have p: "state example_paused = Paused"
    by (simp add: example_paused_def pause_def updateTime_def Let_def example_engine_def)
  show ?thesis
    using h p time_roundtrip [of example_paused 100 "1 / 4"] by blast
qed

text \<open>
  The roundings of the example below: \<open>0.031000001 * 1000\<close> is rounded to
  \<open>31.000000999999997\<close>, and a thousandth of that to \<open>0.031000000999999996\<close>.
\<close>

lemma example_seconds_to_ms: "fl (example_seconds * 1000) = 272678892484541 / 8796093022208"
  unfolding example_seconds_def
  by (subst fl_binade [where e = 4]) (simp_all add: round_even_def Let_def)

lemma example_ms_to_seconds:
  "fl (272678892484541 / 8796093022208 / 1000) = 8935141948933439 / 288230376151711744"
  by (subst fl_binade [where e = "- 6"]) (simp_all add: round_even_def Let_def)

text \<open>
  C6 as stated fails: on a paused engine the time \<open>0.031000001\<close> (a double) reads back
  as \<open>0.031000000999999996\<close>, the double below it.
\<close>

theorem time_roundtrip_counterexample:
  "state example_paused = Paused
   \<and> fl example_seconds = example_seconds
   \<and> get_time (set_time example_paused 100 example_seconds)
       = 8935141948933439 / 288230376151711744
   \<and> 8935141948933439 / 288230376151711744 \<noteq> example_seconds"
proof -
  have p: "state example_paused = Paused"
    by (simp add: example_paused_def pause_def updateTime_def Let_def example_engine_def)
  have d: "fl example_seconds = example_seconds"
    using fl_exact [of 139611592952085 "- 52"]
    by (simp add: example_seconds_def power_int_minus_divide)
  have g: "get_time (set_time example_paused 100 example_seconds)
             = 8935141948933439 / 288230376151711744"
    by (simp only: get_set_time example_seconds_to_ms example_ms_to_seconds)
  have n: "8935141948933439 / 288230376151711744 \<noteq> example_seconds"
    by (simp add: example_seconds_def)
  show ?thesis using p d g n by blast
qed

subsection \<open>Cancelling\<close>

text \<open>
  C7. \<open>cancel\<close> ought to report the generator's sample at \<open>t = 0\<close> to \<open>onUpdate\<close> from any
  state. From a running engine it does: after a tick at \<open>500\<close>, \<open>cancel\<close> reports \<open>0\<close>,
  stops the driver and calls \<open>onCancel\<close>. From a finished engine it does not: \<open>cancel\<close>
  clears \<open>holdTime\<close> and sets \<open>startTime = 0\<close> but leaves the state at \<open>finished\<close>, so its
  tick at \<open>0\<close> takes the branch for a finished animation (\<open>currentTime = totalDuration\<close>),
  reports the final keyframe, \<open>1\<close>, where the generator's sample at \<open>0\<close> is \<open>0\<close>, and
  runs \<open>finish\<close> a second time before \<open>cancel\<close> tears down (the double teardown of C4).
  The engine ends idle.
\<close>

theorem cancel_after_finish:
  "map_sum id events
     (calls (example_env 1000) (example_engine example_options 1000 0) [Tick 500, Cancel])
       = Inr [DriverStart True, OnUpdate (Num (1 / 2)), OnUpdate (Num 0), DriverStop, OnCancel]
   \<and> map_sum id state
     (calls (example_env 1000) (example_engine example_options 1000 0) [Tick 1000]) = Inr Finished
   \<and> map_sum id events
     (calls (example_env 1000) (example_engine example_options 1000 0) [Tick 1000, Cancel])
       = Inr [DriverStart True, OnUpdate (Num 1), NotifyFinished, DriverStop,
              OnUpdate (Num 1), NotifyFinished, OnCancel]
   \<and> map_sum id state
     (calls (example_env 1000) (example_engine example_options 1000 0) [Tick 1000, Cancel])
       = Inr Idle
   \<and> svalue (gnext (generator (example_engine example_options 1000 0)) 0) = Num 0"
proof -
  have 1: "map_sum id events
     (calls (example_env 1000) (example_engine example_options 1000 0) [Tick 500, Cancel])
       = Inr [DriverStart True, OnUpdate (Num (1 / 2)), OnUpdate (Num 0), DriverStop, OnCancel]"
    by (simp add: engine_defs example_defs)
  have 2: "map_sum id state
     (calls (example_env 1000) (example_engine example_options 1000 0) [Tick 1000]) = Inr Finished"
    by (simp add: engine_defs example_defs)
  have 3: "map_sum id events
     (calls (example_env 1000) (example_engine example_options 1000 0) [Tick 1000, Cancel])
       = Inr [DriverStart True, OnUpdate (Num 1), NotifyFinished, DriverStop,
              OnUpdate (Num 1), NotifyFinished, OnCancel]"
    by (simp add: engine_defs example_defs)
  have 4: "map_sum id state
     (calls (example_env 1000) (example_engine example_options 1000 0) [Tick 1000, Cancel])
       = Inr Idle"
    by (simp add: engine_defs example_defs)
  have 5: "svalue (gnext (generator (example_engine example_options 1000 0)) 0) = Num 0"
    by (simp add: engine_defs example_defs)
  show ?thesis using 1 2 3 4 5 by blast
qed

subsection \<open>The counter of active animations\<close>

text \<open>
  C4. The counter is incremented once by the constructor and ought to fall by one on
  teardown. It falls twice when \<open>cancel\<close> is called on an animation whose tick at \<open>0\<close>
  finishes it (here one of duration \<open>0\<close>): \<open>finish\<close> tears down inside the tick and
  \<open>cancel\<close> tears down again. From a baseline of \<open>0\<close> the counter ends at \<open>-1\<close>; after a
  natural finish (counter back at \<open>0\<close>) a \<open>cancel\<close> takes it to \<open>-2\<close>.
\<close>

theorem counter_below_baseline:
  "map_sum id mainThread (constructor (example_env 0) example_options 0 0 0) = Inr 1
   \<and> map_sum id mainThread
        (calls (example_env 0) (example_engine example_options 0 0) [Cancel]) = Inr (- 1)
   \<and> map_sum id mainThread
        (calls (example_env 1000) (example_engine example_options 1000 0) [Tick 1000]) = Inr 0
   \<and> map_sum id mainThread
        (calls (example_env 1000) (example_engine example_options 1000 0) [Tick 1000, Cancel])
       = Inr (- 2)"
proof -
  have "constructor (example_env 0) example_options 0 0 0
          = Inr (example_engine example_options 0 0)"
    by (rule constructor_example) (simp_all add: example_options_def)
  then have "map_sum id mainThread (constructor (example_env 0) example_options 0 0 0) = Inr 1"
    by (simp add: example_engine_def)
  moreover have "map_sum id mainThread
      (calls (example_env 0) (example_engine example_options 0 0) [Cancel]) = Inr (- 1)"
    by (simp add: engine_defs example_defs)
  moreover have "map_sum id mainThread
      (calls (example_env 1000) (example_engine example_options 1000 0) [Tick 1000]) = Inr 0"
    by (simp add: engine_defs example_defs)
  moreover have "map_sum id mainThread
      (calls (example_env 1000) (example_engine example_options 1000 0) [Tick 1000, Cancel])
        = Inr (- 2)"
    by (simp add: engine_defs example_defs)
  ultimately show ?thesis by simp
qed

subsection \<open>Pause and resume\<close>

text \<open>
  C5. At playback speed \<open>2\<close>: the engine is paused when the clock reads \<open>100\<close>, at
  \<open>currentTime = 200\<close>; \<open>play\<close> is called with the clock still at \<open>100\<close>, and the next
  tick, at the same clock reading, computes \<open>currentTime = 400\<close>; at speed \<open>1\<close> the same
  calls resume at the held time, \<open>100\<close>. (\<open>play\<close> sets
  \<open>startTime = now - holdTime\<close>, where the setter of \<open>time\<close> divides the held time by the
  playback speed.)
\<close>

theorem pause_play_drift:
  "map_sum id currentTime
     (calls (example_env 1000) (example_engine example_options 1000 0)
        [SetSpeed 0 0 2, Tick 100, Pause 100]) = Inr 200
   \<and> map_sum id currentTime
     (calls (example_env 1000) (example_engine example_options 1000 0)
        [SetSpeed 0 0 2, Tick 100, Pause 100, Play 100, Tick 100]) = Inr 400
   \<and> map_sum id currentTime
     (calls (example_env 1000) (example_engine example_options 1000 0)
        [Tick 100, Pause 100, Play 100, Tick 100]) = Inr 100"
  by (simp add: engine_defs example_defs)

subsection \<open>The repeat arithmetic\<close>

text \<open>
  The remainder \<open>x % 1.0\<close> lies strictly between \<open>-1\<close> and \<open>1\<close>, so the iteration progress
  is \<open>1\<close> only by promotion; and the code's test for the promotion, \<open>!iterationProgress
  && progress >= 1\<close>, holds exactly for a whole progress \<open>\<ge> 1\<close>.
\<close>

lemma mod1_bounds: "\<bar>mod1 a\<bar> < 1"
  unfolding mod1_def by (cases "0 \<le> a") (simp_all, linarith+)

lemma promote_whole: "(falsy (n_rem1 p) \<and> n_ge p 1) = spec_whole p"
proof (cases p)
  case (Fin a)
  show ?thesis
  proof (cases "1 \<le> a")
    case True
    then have "mod1 a = a - of_int \<lfloor>a\<rfloor>" by (simp add: mod1_def)
    then show ?thesis
      using True by (auto simp add: Fin falsy_def spec_whole_def fractional_def)
  next
    case False
    then show ?thesis by (simp add: Fin spec_whole_def)
  qed
qed (simp_all add: falsy_def spec_whole_def fractional_def)

lemma rem1_not_one: "n_rem1 p \<noteq> Fin 1"
proof (cases p)
  case (Fin a)
  then show ?thesis using mod1_bounds [of a] by auto
qed simp_all

text \<open>
  The repeat block of \<open>tick\<close> computes what the specification describes, whatever the
  durations.
\<close>

lemma tick_repeat_spec:
  assumes "repeat (options this) \<noteq> 0"
  shows "tick_repeat this = (spec_elapsed this, spec_generator this)"
proof -
  define p where "p = n_div (min (currentTime this) (totalDuration this)) (resolvedDuration this)"
  have ip: "(if falsy (n_rem1 p) \<and> n_ge p 1 then Fin 1 else n_rem1 p) = spec_iterationProgress p"
    unfolding promote_whole by (simp add: spec_iterationProgress_def)
  have one: "(spec_iterationProgress p = Fin 1) = spec_whole p"
    using rem1_not_one [of p] by (simp add: spec_iterationProgress_def)
  have it: "n_min (if spec_iterationProgress p = Fin 1 then n_sub (n_floor p) (Fin 1)
                   else n_floor p)
                (real (repeat (options this)) + 1) = spec_iteration p (repeat (options this))"
    unfolding one by (simp add: spec_iteration_def)
  show ?thesis
    using assms
    unfolding tick_repeat_def p_def [symmetric] Let_def ip it
      spec_elapsed_def spec_generator_def spec_odd_def spec_progress_def
    by simp
qed

text \<open>
  With a \<open>resolvedDuration\<close> of \<open>0\<close> and a time of \<open>0\<close> the progress is \<open>0 / 0\<close>, and the
  elapsed time is \<open>NaN\<close>.
\<close>

lemma tick_repeat_zero_duration:
  assumes "repeat (options this) \<noteq> 0" "resolvedDuration this = 0"
    "min (currentTime this) (totalDuration this) = 0"
  shows "tick_repeat this = (None, Some (generator this))"
  using assms by (simp add: tick_repeat_def n_div_def Let_def falsy_def)

text \<open>
  C1, as amended. In a call of \<open>tick\<close> with \<open>startTime\<close> set and \<open>repeat > 0\<close>, the elapsed
  time and the generator of the frame are those of the specification's description
  (progress, iteration, iteration progress promoted to \<open>1\<close> on a whole progress \<open>\<ge> 1\<close>
  with the iteration decremented, the clamp to \<open>repeat + 1\<close>, the flip for \<open>reverse\<close> and
  the mirrored generator for \<open>mirror\<close>), in the arithmetic of doubles. Outside the delay
  phase the tick goes on from the sample of that generator at \<open>clamp01(iterationProgress)
  * resolvedDuration\<close>, and throws when the mirrored generator is chosen and was never
  created. In the delay phase it samples no generator and goes on from \<open>{ done: false,
  value: keyframes[0] }\<close>.
\<close>

theorem tick_repeat_arithmetic:
  assumes "startTime this = Some st"
    and "0 < repeat (options this)"
  shows "tick_repeat (fst (tick_time this st ts smp))
           = (spec_elapsed (fst (tick_time this st ts smp)),
              spec_generator (fst (tick_time this st ts smp)))
         \<and> tick env this ts smp
             = (if snd (tick_time this st ts smp)
                then Inr (tick_settle env (fst (tick_time this st ts smp)) True
                            \<lparr>sdone = False, svalue = at_index (keyframes (options this)) 0\<rparr>)
                else (case spec_generator (fst (tick_time this st ts smp)) of
                        None \<Rightarrow> Inl TypeError
                      | Some g \<Rightarrow>
                         Inr (tick_settle env (fst (tick_time this st ts smp)) False
                                (sample_at g (spec_elapsed (fst (tick_time this st ts smp))))))) "
proof -
  define this1 where "this1 = fst (tick_time this st ts smp)"
  have r: "repeat (options this1) \<noteq> 0"
    using assms(2) by (simp add: this1_def tick_time_frame)
  have sp: "tick_repeat this1 = (spec_elapsed this1, spec_generator this1)"
    using r by (rule tick_repeat_spec)
  show ?thesis
    unfolding tick_started [OF assms(1)] this1_def [symmetric] sp fst_conv snd_conv
    by (simp cong: option.case_cong)
qed

text \<open>
  The example below: the tick at \<open>1650\<close> falls in the middle of the second of three
  cycles of length \<open>1100\<close>, played in reverse. In real numbers \<open>(1 - 0.5 - 100/1100) *
  1100\<close> is \<open>450\<close>; in doubles \<open>100/1100\<close> is rounded to \<open>0.09090909090909091\<close>, the
  difference to \<open>0.40909090909090906\<close> and the product to \<open>449.99999999999994\<close>
  (\<open>7916483719987199 / 2^44\<close>).
\<close>

lemmas spec_defs =
  spec_elapsed_def spec_generator_def spec_odd_def spec_progress_def spec_iteration_def
  spec_iterationProgress_def spec_whole_def fractional_def

lemma example_reversing_time:
  "fst (tick_time example_reversing 0 1650 False)
     = example_reversing\<lparr>startTime := Some 0, currentTime := 1650\<rparr>"
  "\<not> snd (tick_time example_reversing 0 1650 False)"
  by (simp_all add: engine_defs example_defs)

lemma example_delay_fraction:
  "fl (1 / 11) = 3275345183542179 / 36028797018963968"
  by (subst fl_binade [where e = "- 4"]) (simp_all add: round_even_def Let_def)

lemma example_flipped:
  "fl (1 / 2 - fl (1 / 11)) = 3684763331484951 / 9007199254740992"
proof -
  have "fl (1 / 2 - 3275345183542179 / 36028797018963968)
          = 3684763331484951 / 9007199254740992"
    by (subst fl_binade [where e = "- 2"]) (simp_all add: round_even_def Let_def)
  then show ?thesis by (simp only: example_delay_fraction)
qed

lemma example_elapsed:
  "fl (1013309916158361525 / 2251799813685248) = 7916483719987199 / 17592186044416"
  by (subst fl_binade [where e = 8]) (simp_all add: round_even_def Let_def)

lemma example_reversing_spec:
  "spec_elapsed (example_reversing\<lparr>startTime := Some 0, currentTime := 1650\<rparr>)
     = Some (7916483719987199 / 17592186044416)"
  "spec_generator (example_reversing\<lparr>startTime := Some 0, currentTime := 1650\<rparr>)
     = Some (generator example_reversing)"
  by (simp_all add: example_flipped example_elapsed spec_defs example_defs n_div_def mod1_def
      Let_def del: of_int_floor_cancel)

theorem tick_repeat_arithmetic_witness:
  "startTime example_reversing = Some 0
   \<and> 0 < repeat (options example_reversing)
   \<and> \<not> snd (tick_time example_reversing 0 1650 False)
   \<and> tick_repeat (fst (tick_time example_reversing 0 1650 False))
       = (Some (7916483719987199 / 17592186044416), Some (generator example_reversing))
   \<and> tick (example_env 1000) example_reversing 1650 False
       = Inr (tick_settle (example_env 1000) (fst (tick_time example_reversing 0 1650 False))
                False (gnext (generator example_reversing)
                         (7916483719987199 / 17592186044416)))"
proof -
  have h1: "startTime example_reversing = Some 0"
    by (simp add: example_defs)
  have h2: "0 < repeat (options example_reversing)"
    by (simp add: example_defs)
  note t = tick_repeat_arithmetic [OF h1 h2, of 1650 False "example_env 1000"]
  have d: "snd (tick_time example_reversing 0 1650 False) = False"
    using example_reversing_time(2) by simp
  show ?thesis
    using t h1 h2
    unfolding example_reversing_time(1) d example_reversing_spec
    by (simp add: sample_at_def)
qed

text \<open>
  C1 as stated fails in the delay phase: with \<open>delay = 500\<close>, a generator of duration
  \<open>0\<close>, \<open>repeat = 1\<close> and \<open>repeatDelay = 100\<close>, the tick at \<open>100\<close> computes an elapsed time of
  \<open>0\<close>, where the generator's sample is \<open>{ done: true, value: 1 }\<close>; the tick returns
  \<open>{ done: false, value: 0 }\<close>, the first keyframe, and does not sample the generator.
\<close>

theorem delay_phase_counterexample:
  "map_sum id snd (tick (example_env 0) (example_engine example_delay_options 0 0) 100 False)
     = Inr \<lparr>sdone = False, svalue = Num 0\<rparr>
   \<and> startTime (example_engine example_delay_options 0 0) = Some 0
   \<and> 0 < repeat (options (example_engine example_delay_options 0 0))
   \<and> snd (tick_time (example_engine example_delay_options 0 0) 0 100 False)
   \<and> tick_repeat (fst (tick_time (example_engine example_delay_options 0 0) 0 100 False))
       = (Some 0, Some (generator (example_engine example_delay_options 0 0)))
   \<and> gnext (generator (example_engine example_delay_options 0 0)) 0
       = \<lparr>sdone = True, svalue = Num 1\<rparr>"
proof -
  have 1: "map_sum id snd
       (tick (example_env 0) (example_engine example_delay_options 0 0) 100 False)
     = Inr \<lparr>sdone = False, svalue = Num 0\<rparr>"
    by (simp add: engine_defs example_defs)
  have 2: "startTime (example_engine example_delay_options 0 0) = Some 0"
    "0 < repeat (options (example_engine example_delay_options 0 0))"
    "snd (tick_time (example_engine example_delay_options 0 0) 0 100 False)"
    by (simp_all add: engine_defs example_defs)
  have 3: "tick_repeat (fst (tick_time (example_engine example_delay_options 0 0) 0 100 False))
       = (Some 0, Some (generator (example_engine example_delay_options 0 0)))"
    by (simp add: engine_defs example_defs)
  have 4: "gnext (generator (example_engine example_delay_options 0 0)) 0
       = \<lparr>sdone = True, svalue = Num 1\<rparr>"
    by (simp add: example_defs at_index_def)
  show ?thesis using 1 2 3 4 by blast
qed

subsection \<open>Completion by time\<close>

text \<open>
  C3, as amended. In a tick outside the delay phase, with the duration known, the
  value of \<open>done\<close> that decides whether the animation finishes is the time-boundary
  comparison on the engine's new \<open>currentTime\<close>, whatever flag the generator reported.
  When \<open>holdTime\<close> is \<open>null\<close> and the state is \<open>finished\<close>, or \<open>running\<close> with the boundary
  reached, the tick finishes the engine: the state becomes \<open>finished\<close>, \<open>startTime\<close> and
  \<open>holdTime\<close> are \<open>null\<close>, the driver is stopped, \<open>notifyFinished\<close> is called after
  \<open>onUpdate\<close> and before \<open>onComplete\<close>, and the counter falls by one. Otherwise the
  state, \<open>holdTime\<close>, the driver and the counter stay as they were and only \<open>onUpdate\<close> is
  called. The \<open>done\<close> field of the sample that \<open>tick\<close> returns is not overwritten: it is
  the flag of the generator's sample. (The tick throws when the mirrored generator is
  chosen and was never created.)
\<close>

theorem tick_done_by_time:
  assumes "startTime this = Some st"
    and "\<not> snd (tick_time this st ts smp)"
    and "calculatedDuration this \<noteq> None"
  shows "case snd (tick_repeat (fst (tick_time this st ts smp))) of
           None \<Rightarrow> tick env this ts smp = Inl TypeError
         | Some g \<Rightarrow>
            (\<exists>this' s.
               tick env this ts smp = Inr (this', s)
             \<and> sdone s = sdone (sample_at g (fst (tick_repeat (fst (tick_time this st ts smp)))))
             \<and> (\<forall>b. tick_done (fst (tick_time this st ts smp)) False b = done_by_time this')
             \<and> (if holdTime this = None
                    \<and> (state this = Finished \<or> (state this = Running \<and> done_by_time this'))
                 then state this' = Finished \<and> startTime this' = None \<and> holdTime this' = None
                    \<and> \<not> driver this' \<and> mainThread this' = mainThread this - 1
                    \<and> events this'
                        = events this
                          @ (if has_onUpdate (options this) then [OnUpdate (svalue s)] else [])
                          @ [NotifyFinished] @ (if driver this then [DriverStop] else [])
                          @ (if has_onComplete (options this) then [OnComplete] else [])
                 else state this' = state this \<and> holdTime this' = holdTime this
                    \<and> driver this' = driver this \<and> mainThread this' = mainThread this
                    \<and> events this'
                        = events this
                          @ (if has_onUpdate (options this) then [OnUpdate (svalue s)] else [])))"
proof (cases "snd (tick_repeat (fst (tick_time this st ts smp)))")
  case None
  then show ?thesis
    using assms(2) by (simp add: tick_started [OF assms(1)])
next
  case (Some g)
  define this1 where "this1 = fst (tick_time this st ts smp)"
  define s0 where "s0 = sample_at g (fst (tick_repeat this1))"
  define r where "r = tick_settle env this1 False s0"
  have t: "tick env this ts smp = Inr (fst r, snd r)"
    using assms(2) Some
    by (simp add: tick_started [OF assms(1)] this1_def [symmetric] r_def s0_def)
  have cd: "calculatedDuration this1 \<noteq> None"
    using assms(3) by (simp add: this1_def tick_time_frame)
  have b: "done_by_time (fst r) = done_by_time this1"
    by (simp add: done_by_time_def r_def tick_settle_frame)
  have d: "tick_done this1 False b' = done_by_time this1" for b'
    using cd by (simp add: tick_done_def done_by_time_def)
  have f: "isAnimationFinished this1 (tick_done this1 False (sdone s0))
             = (holdTime this = None
                \<and> (state this = Finished \<or> (state this = Running \<and> done_by_time (fst r))))"
    unfolding b d by (simp add: isAnimationFinished_def this1_def tick_time_frame)
  have fr: "events this1 = events this" "options this1 = options this"
    "driver this1 = driver this" "mainThread this1 = mainThread this"
    "state this1 = state this" "holdTime this1 = holdTime this"
    by (simp_all add: this1_def tick_time_frame)
  have sd: "sdone (snd r) = sdone s0"
    by (simp add: r_def tick_settle_done)
  have m: "mainThread (fst r)
             = (if isAnimationFinished this1 (tick_done this1 False (sdone s0))
                then mainThread this - 1 else mainThread this)"
    by (simp add: r_def tick_settle_counter fr)
  have e: "if holdTime this = None
              \<and> (state this = Finished \<or> (state this = Running \<and> done_by_time (fst r)))
           then state (fst r) = Finished \<and> startTime (fst r) = None \<and> holdTime (fst r) = None
              \<and> \<not> driver (fst r) \<and> mainThread (fst r) = mainThread this - 1
              \<and> events (fst r)
                  = events this
                    @ (if has_onUpdate (options this) then [OnUpdate (svalue (snd r))] else [])
                    @ [NotifyFinished] @ (if driver this then [DriverStop] else [])
                    @ (if has_onComplete (options this) then [OnComplete] else [])
           else state (fst r) = state this \<and> holdTime (fst r) = holdTime this
              \<and> driver (fst r) = driver this \<and> mainThread (fst r) = mainThread this
              \<and> events (fst r)
                  = events this
                    @ (if has_onUpdate (options this) then [OnUpdate (svalue (snd r))] else [])"
  proof (cases "isAnimationFinished this1 (tick_done this1 False (sdone s0))")
    case True
    note u = tick_settle_finished [OF True, of env, folded r_def]
    show ?thesis
      using True u(1-5) m unfolding f fr by simp
  next
    case False
    note u = tick_settle_running [OF False, of env, folded r_def]
    show ?thesis
      using False u(1-5) m unfolding f fr by simp
  qed
  show ?thesis
    unfolding Some option.case
  proof (intro exI conjI)
    show "tick env this ts smp = Inr (fst r, snd r)" by (rule t)
    show "sdone (snd r) = sdone (sample_at g (fst (tick_repeat (fst (tick_time this st ts smp)))))"
      using sd by (simp add: s0_def this1_def)
    show "\<forall>b. tick_done (fst (tick_time this st ts smp)) False b = done_by_time (fst r)"
      using d b by (simp add: this1_def)
    show "if holdTime this = None
              \<and> (state this = Finished \<or> (state this = Running \<and> done_by_time (fst r)))
           then state (fst r) = Finished \<and> startTime (fst r) = None \<and> holdTime (fst r) = None
              \<and> \<not> driver (fst r) \<and> mainThread (fst r) = mainThread this - 1
              \<and> events (fst r)
                  = events this
                    @ (if has_onUpdate (options this) then [OnUpdate (svalue (snd r))] else [])
                    @ [NotifyFinished] @ (if driver this then [DriverStop] else [])
                    @ (if has_onComplete (options this) then [OnComplete] else [])
           else state (fst r) = state this \<and> holdTime (fst r) = holdTime this
              \<and> driver (fst r) = driver this \<and> mainThread (fst r) = mainThread this
              \<and> events (fst r)
                  = events this
                    @ (if has_onUpdate (options this) then [OnUpdate (svalue (snd r))] else [])"
      by (rule e)
  qed
qed

theorem tick_done_by_time_witness:
  "startTime example_looping = Some 0
   \<and> \<not> snd (tick_time example_looping 0 2000 False)
   \<and> calculatedDuration example_looping \<noteq> None
   \<and> holdTime example_looping = None \<and> state example_looping = Running
   \<and> driver example_looping \<and> mainThread example_looping = 1
   \<and> (\<exists>this' s.
           tick (example_env 1000) example_looping 2000 False = Inr (this', s)
         \<and> done_by_time this'
         \<and> tick_done (fst (tick_time example_looping 0 2000 False)) False (sdone s)
         \<and> state this' = Finished \<and> mainThread this' = 0
         \<and> events this' = [DriverStart True, OnUpdate (Num 1), NotifyFinished, DriverStop])"
proof -
  have h1: "startTime example_looping = Some 0"
    by (simp add: example_defs)
  have h2: "\<not> snd (tick_time example_looping 0 2000 False)"
    by (simp add: engine_defs example_defs)
  have h3: "calculatedDuration example_looping \<noteq> None"
    by (simp add: example_defs)
  have a: "holdTime example_looping = None" "state example_looping = Running"
    "driver example_looping" "mainThread example_looping = 1"
    "events example_looping = [DriverStart True]"
    "has_onUpdate (options example_looping)" "\<not> has_onComplete (options example_looping)"
    by (simp_all add: example_defs)
  have g: "snd (tick_repeat (fst (tick_time example_looping 0 2000 False)))
             = Some (generator example_looping)"
    by (simp add: tick_repeat_def Let_def tick_time_frame) (simp add: example_defs)
  have n: "map_sum id (done_by_time \<circ> fst)
             (tick (example_env 1000) example_looping 2000 False) = Inr True"
    by (simp add: engine_defs example_defs done_by_time_def)
  have v: "map_sum id (svalue \<circ> snd)
             (tick (example_env 1000) example_looping 2000 False) = Inr (Num 1)"
    by (simp add: engine_defs example_defs)
  note t = tick_done_by_time [OF h1 h2 h3, of "example_env 1000", unfolded g option.case]
  obtain this' s where r:
      "tick (example_env 1000) example_looping 2000 False = Inr (this', s)"
      "\<forall>b. tick_done (fst (tick_time example_looping 0 2000 False)) False b
             = done_by_time this'"
      "if holdTime example_looping = None
          \<and> (state example_looping = Finished
              \<or> (state example_looping = Running \<and> done_by_time this'))
       then state this' = Finished \<and> startTime this' = None \<and> holdTime this' = None
          \<and> \<not> driver this' \<and> mainThread this' = mainThread example_looping - 1
          \<and> events this'
              = events example_looping
                @ (if has_onUpdate (options example_looping) then [OnUpdate (svalue s)] else [])
                @ [NotifyFinished] @ (if driver example_looping then [DriverStop] else [])
                @ (if has_onComplete (options example_looping) then [OnComplete] else [])
       else state this' = state example_looping \<and> holdTime this' = holdTime example_looping
          \<and> driver this' = driver example_looping
          \<and> mainThread this' = mainThread example_looping
          \<and> events this'
              = events example_looping
                @ (if has_onUpdate (options example_looping) then [OnUpdate (svalue s)] else [])"
    using t by blast
  have nd: "done_by_time this'"
    using n r(1) by simp
  have sv: "svalue s = Num 1"
    using v r(1) by simp
  have td: "tick_done (fst (tick_time example_looping 0 2000 False)) False (sdone s)"
    using r(2) nd by simp
  have "state this' = Finished" "mainThread this' = 0"
    "events this' = [DriverStart True, OnUpdate (Num 1), NotifyFinished, DriverStop]"
    using r(3) nd a sv by simp_all
  then show ?thesis
    using h1 h2 h3 a(1-4) r(1) nd td by blast
qed

text \<open>
  C3 as stated fails for the returned sample: at the end of the first of two
  iterations (\<open>repeat = 1\<close>, duration \<open>1000\<close>, tick at \<open>1000\<close>) the returned sample has
  \<open>done = true\<close>, the generator's flag, while \<open>currentTime = 1000 < totalDuration = 2000\<close>
  and the engine keeps running.
\<close>

theorem sample_done_counterexample:
  "map_sum id (sdone \<circ> snd)
     (tick (example_env 1000) example_looping 1000 False) = Inr True
   \<and> map_sum id (done_by_time \<circ> fst)
     (tick (example_env 1000) example_looping 1000 False) = Inr False
   \<and> map_sum id (state \<circ> fst)
     (tick (example_env 1000) example_looping 1000 False) = Inr Running
   \<and> startTime example_looping = Some 0
   \<and> \<not> snd (tick_time example_looping 0 1000 False)
   \<and> calculatedDuration example_looping = Some 1000"
proof -
  have 1: "map_sum id (sdone \<circ> snd)
     (tick (example_env 1000) example_looping 1000 False) = Inr True"
    by (simp add: engine_defs example_defs)
  have 2: "map_sum id (done_by_time \<circ> fst)
     (tick (example_env 1000) example_looping 1000 False) = Inr False"
    by (simp add: engine_defs example_defs done_by_time_def)
  have 3: "map_sum id (state \<circ> fst)
     (tick (example_env 1000) example_looping 1000 False) = Inr Running"
    by (simp add: engine_defs example_defs)
  have 4: "startTime example_looping = Some 0"
    "\<not> snd (tick_time example_looping 0 1000 False)"
    "calculatedDuration example_looping = Some 1000"
    by (simp_all add: engine_defs example_defs)
  show ?thesis using 1 2 3 4 by blast
qed

subsection \<open>Keyframe values\<close>

text \<open>
  C10. \<open>isNone value\<close> is true exactly when the value is \<open>null\<close>, the number \<open>0\<close>, or a
  string that is \<open>"none"\<close>, \<open>"0"\<close> or a zero-value string; every other number and every
  other string gives false.
\<close>

theorem isNone_iff:
  "isNone isZeroValueString v =
     (v = Null \<or> v = Number 0 \<or>
      (\<exists>s. v = String s \<and> (s = ''none'' \<or> s = ''0'' \<or> isZeroValueString s)))"
  by (cases v) auto

end
